theory Spec2Isabelle
  imports Complex_Main "HOL-Library.Product_Lexorder" "HOL-Library.Multiset"
begin

section \<open>Values, exceptions and builtins\<close>

text \<open>
  The rules engine (\<^verbatim>\<open>rules_engine.py\<close>) handles untyped Python values: a metric value is
  whatever a provider's \<^verbatim>\<open>get_metric\<close> returns, and \<^verbatim>\<open>Rule.value_exact\<close> is
  \<^verbatim>\<open>Optional[Any]\<close>. The values that occur are \<^verbatim>\<open>None\<close>, booleans, integers, floats,
  strings and lists.

  A float that the engine reads (a weight, a bound, a threshold, a metric value) is
  modelled by the rational number it denotes: every finite double is a rational, and
  Python compares floats with each other and with integers by their exact values. The
  infinities and NaN are not among these values. A string is a list of 8-bit characters;
  the character tests below are those of Python on ASCII text.
\<close>

datatype pyval =
    PNone
  | PBool bool
  | PInt int
  | PFloat rat
  | PStr string
  | PList "pyval list"

text \<open>A score is a float that the engine computes by adding weights: a sum of finite
  doubles can overflow, so a score is a finite double, an infinity or NaN.\<close>

datatype pyfloat = Finite rat | PosInf | NegInf | NaN

text \<open>An exception is its class name and its message: the two things the engine reads
  from it (\<^verbatim>\<open>type(e).__name__\<close> and \<^verbatim>\<open>str(e)\<close>). The values of \<open>exn\<close> are the instances
  of \<^verbatim>\<open>Exception\<close>, which \<^verbatim>\<open>except Exception\<close> catches. The messages of the exceptions
  that Python's builtins raise are abbreviated; nothing in the engine depends on them.\<close>

datatype exn = Exn (exception_type: string) (message: string)

text \<open>
  A row of \<^verbatim>\<open>csv.DictReader\<close> maps the names of the header to cells; the cell of a
  column that a short line does not reach is \<^verbatim>\<open>None\<close>.
\<close>

type_synonym row = "string \<rightharpoonup> string option"

text \<open>
  The library functions the engine calls are parameters of the model: \<^verbatim>\<open>float\<close> on a
  string (\<open>None\<close> is its \<^verbatim>\<open>ValueError\<close>), \<^verbatim>\<open>float\<close> on an integer (\<open>None\<close> is its
  \<^verbatim>\<open>OverflowError\<close>; the result is the nearest double), \<^verbatim>\<open>int\<close> on a string, the
  addition \<^verbatim>\<open>score + weight\<close> of two doubles (the exact sum rounded to the nearest
  double, an infinity when it overflows), and \<^verbatim>\<open>csv.DictReader\<close> on an open file and on
  the lines of a text. The general theorems hold whatever these functions are; the worked
  examples use a table of their values.
\<close>

record builtins =
  float_of_str :: "string \<Rightarrow> rat option"
  float_of_int :: "int \<Rightarrow> rat option"
  int_of_str :: "string \<Rightarrow> int option"
  float_add :: "pyfloat \<Rightarrow> rat \<Rightarrow> pyfloat"
  dict_reader :: "string \<Rightarrow> row list"
  dict_reader_lines :: "string \<Rightarrow> row list"

text \<open>\<^verbatim>\<open>str.isspace\<close>, \<^verbatim>\<open>str.strip\<close> and \<^verbatim>\<open>str.upper\<close> on ASCII text.\<close>

definition isspace :: "char \<Rightarrow> bool" where
  "isspace c = (let n = (of_char c :: nat) in (9 \<le> n \<and> n \<le> 13) \<or> (28 \<le> n \<and> n \<le> 32))"

definition strip :: "string \<Rightarrow> string" where
  "strip s = rev (dropWhile isspace (rev (dropWhile isspace s)))"

definition upper_char :: "char \<Rightarrow> char" where
  "upper_char c = (let n = (of_char c :: nat) in
     if 97 \<le> n \<and> n \<le> 122 then char_of (n - 32) else c)"

definition upper :: "string \<Rightarrow> string" where
  "upper s = map upper_char s"

text \<open>\<^verbatim>\<open>bool(v)\<close>: the truth value of a Python object.\<close>

fun py_bool :: "pyval \<Rightarrow> bool" where
  "py_bool PNone = False"
| "py_bool (PBool b) = b"
| "py_bool (PInt i) = (i \<noteq> 0)"
| "py_bool (PFloat x) = (x \<noteq> 0)"
| "py_bool (PStr s) = (s \<noteq> [])"
| "py_bool (PList vs) = (vs \<noteq> [])"

text \<open>The number a value denotes in a comparison: \<^verbatim>\<open>bool\<close> is a subclass of \<^verbatim>\<open>int\<close>.\<close>

fun num_of :: "pyval \<Rightarrow> rat option" where
  "num_of (PBool b) = Some (if b then 1 else 0)"
| "num_of (PInt i) = Some (of_int i)"
| "num_of (PFloat x) = Some x"
| "num_of _ = None"

text \<open>\<^verbatim>\<open>a == b\<close>: numbers by value, strings with strings, lists element by element,
  \<^verbatim>\<open>None\<close> with itself only; it never raises.\<close>

fun py_eq :: "pyval \<Rightarrow> pyval \<Rightarrow> bool" where
  "py_eq PNone b = (b = PNone)"
| "py_eq (PStr s) b = (b = PStr s)"
| "py_eq (PList xs) (PList ys) = list_all2 py_eq xs ys"
| "py_eq (PList xs) _ = False"
| "py_eq a b = (case num_of b of None \<Rightarrow> False | Some y \<Rightarrow> num_of a = Some y)"

text \<open>\<^verbatim>\<open>float(v)\<close>, with the exception it raises.\<close>

definition py_float :: "builtins \<Rightarrow> pyval \<Rightarrow> exn + rat" where
  "py_float P v = (case v of
      PNone \<Rightarrow> Inl (Exn ''TypeError'' ''float() argument must be a string or a real number'')
    | PBool b \<Rightarrow> Inr (if b then 1 else 0)
    | PInt i \<Rightarrow> (case float_of_int P i of
          None \<Rightarrow> Inl (Exn ''OverflowError'' ''int too large to convert to float'')
        | Some x \<Rightarrow> Inr x)
    | PFloat x \<Rightarrow> Inr x
    | PStr s \<Rightarrow> (case float_of_str P s of
          None \<Rightarrow> Inl (Exn ''ValueError'' ''could not convert string to float'')
        | Some x \<Rightarrow> Inr x)
    | PList vs \<Rightarrow> Inl (Exn ''TypeError'' ''float() argument must be a string or a real number''))"

text \<open>\<^verbatim>\<open>v >= x\<close> and \<^verbatim>\<open>v <= x\<close> for a float \<open>x\<close>: defined on numbers, a
  \<^verbatim>\<open>TypeError\<close> on anything else.\<close>

definition py_ge :: "pyval \<Rightarrow> rat \<Rightarrow> exn + bool" where
  "py_ge v x = (case num_of v of
      None \<Rightarrow> Inl (Exn ''TypeError'' ''>= not supported between these instances'')
    | Some y \<Rightarrow> Inr (y \<ge> x))"

definition py_le :: "pyval \<Rightarrow> rat \<Rightarrow> exn + bool" where
  "py_le v x = (case num_of v of
      None \<Rightarrow> Inl (Exn ''TypeError'' ''<= not supported between these instances'')
    | Some y \<Rightarrow> Inr (y \<le> x))"

section \<open>Atomic rules and their evaluation\<close>

text \<open>The dataclass \<^verbatim>\<open>Rule\<close>. The fields keep their names behind the prefix \<open>r_\<close>
  (\<open>id\<close> is a constant of HOL, and \<^verbatim>\<open>BusinessRuleOption\<close> has fields of the same names).\<close>

record rule =
  r_id :: string
  r_category :: string
  r_label :: string
  r_metric :: string
  r_operator :: string
  r_value_low :: "rat option"
  r_value_high :: "rat option"
  r_value_exact :: pyval
  r_unit :: "string option"
  r_window_value :: "int option"
  r_window_unit :: "string option"
  r_weight :: rat
  r_is_gate :: bool

text \<open>A provider is used through \<^verbatim>\<open>get_metric(metric, window_value, window_unit)\<close> only,
  which returns a value or raises. It is modelled by the function that \<^verbatim>\<open>get_metric\<close>
  computes: the providers of the repository answer from a payload that is fixed when
  they are built.\<close>

type_synonym provider = "string \<Rightarrow> int option \<Rightarrow> string option \<Rightarrow> exn + pyval"

text \<open>
  An entry of the atomic log is a dictionary of one of two shapes. The entry of a rule
  whose metric failed has the keys \<^verbatim>\<open>id\<close>, \<^verbatim>\<open>category\<close>, \<^verbatim>\<open>label\<close>, \<^verbatim>\<open>metric\<close>,
  \<^verbatim>\<open>matched\<close>, \<^verbatim>\<open>weight_applied\<close>, \<^verbatim>\<open>metric_value\<close>, \<^verbatim>\<open>error\<close> and
  \<^verbatim>\<open>exception_type\<close>; the entry of an evaluated rule has \<^verbatim>\<open>operator\<close>,
  \<^verbatim>\<open>thresholds\<close>, \<^verbatim>\<open>window\<close> and \<^verbatim>\<open>is_gate\<close> instead of the last two. A key that
  a shape does not have is \<open>None\<close>.
\<close>

record log_entry =
  le_id :: string
  le_category :: string
  le_label :: string
  le_metric :: string
  le_operator :: "string option"
  le_thresholds :: "(rat option \<times> rat option \<times> pyval) option"
  le_window :: "(int option \<times> string option) option"
  le_metric_value :: pyval
  le_matched :: bool
  le_weight_applied :: rat
  le_is_gate :: "bool option"
  le_error :: "string option"
  le_exception_type :: "string option"

definition error_entry :: "rule \<Rightarrow> exn \<Rightarrow> log_entry" where
  "error_entry r e = \<lparr>
     le_id = r_id r, le_category = r_category r, le_label = r_label r,
     le_metric = r_metric r, le_operator = None, le_thresholds = None, le_window = None,
     le_metric_value = PNone, le_matched = False, le_weight_applied = 0,
     le_is_gate = None, le_error = Some (message e),
     le_exception_type = Some (exception_type e) \<rparr>"

definition rule_entry :: "rule \<Rightarrow> pyval \<Rightarrow> bool \<Rightarrow> rat \<Rightarrow> log_entry" where
  "rule_entry r metric_value matched applied = \<lparr>
     le_id = r_id r, le_category = r_category r, le_label = r_label r,
     le_metric = r_metric r, le_operator = Some (r_operator r),
     le_thresholds = Some (r_value_low r, r_value_high r, r_value_exact r),
     le_window = Some (r_window_value r, r_window_unit r),
     le_metric_value = metric_value, le_matched = matched, le_weight_applied = applied,
     le_is_gate = Some (r_is_gate r), le_error = None, le_exception_type = None \<rparr>"

text \<open>The target of \<^verbatim>\<open>EQ\<close> and \<^verbatim>\<open>NE\<close>: a string that reads TRUE or FALSE becomes the
  boolean.\<close>

definition bool_target :: "pyval \<Rightarrow> pyval" where
  "bool_target target = (case target of
      PStr s \<Rightarrow> (let t = upper (strip s) in
        if t = ''TRUE'' \<or> t = ''FALSE'' then PBool (t = ''TRUE'') else target)
    | _ \<Rightarrow> target)"

text \<open>
  The \<^verbatim>\<open>if\<close>/\<^verbatim>\<open>elif\<close> chain of \<^verbatim>\<open>evaluate_rules\<close> that computes \<^verbatim>\<open>matched\<close> from
  the rule and the metric value. Only the conversion of the metric value is inside a
  \<^verbatim>\<open>try\<close>; \<^verbatim>\<open>float(rule.value_exact)\<close> and the two comparisons of the range
  operators are not, so their exceptions leave \<^verbatim>\<open>evaluate_rules\<close>.
\<close>

definition compare_matched :: "builtins \<Rightarrow> rule \<Rightarrow> pyval \<Rightarrow> exn + bool" where
  "compare_matched P r metric_value =
    (let mv = (case py_float P metric_value of Inl _ \<Rightarrow> None | Inr x \<Rightarrow> Some x) in
     case mv of
       None \<Rightarrow> Inr False
     | Some m \<Rightarrow>
        if r_value_exact r = PNone then Inr False
        else (case py_float P (r_value_exact r) of
            Inl e \<Rightarrow> Inl e
          | Inr thr \<Rightarrow>
              if r_operator r = ''LT'' then Inr (m < thr)
              else if r_operator r = ''LTE'' then Inr (m \<le> thr)
              else if r_operator r = ''GT'' then Inr (m > thr)
              else Inr (m \<ge> thr)))"

definition range_matched :: "rule \<Rightarrow> pyval \<Rightarrow> exn + bool" where
  "range_matched r metric_value =
    (case (case r_value_low r of
             None \<Rightarrow> Inr True
           | Some lo \<Rightarrow> if metric_value = PNone then Inr False else py_ge metric_value lo) of
       Inl e \<Rightarrow> Inl e
     | Inr low_ok \<Rightarrow>
        (case (case r_value_high r of
                 None \<Rightarrow> Inr True
               | Some hi \<Rightarrow> if metric_value = PNone then Inr False else py_le metric_value hi) of
           Inl e \<Rightarrow> Inl e
         | Inr high_ok \<Rightarrow> Inr (low_ok \<and> high_ok)))"

definition operator_matched :: "builtins \<Rightarrow> rule \<Rightarrow> pyval \<Rightarrow> exn + bool" where
  "operator_matched P r metric_value =
    (if r_operator r = ''EXISTS'' then Inr (py_bool metric_value)
     else if r_operator r = ''MISSING'' then Inr (\<not> py_bool metric_value)
     else if r_operator r = ''EQ'' then Inr (py_eq metric_value (bool_target (r_value_exact r)))
     else if r_operator r = ''NE'' then Inr (\<not> py_eq metric_value (bool_target (r_value_exact r)))
     else if r_operator r = ''LT'' \<or> r_operator r = ''LTE'' \<or> r_operator r = ''GT''
             \<or> r_operator r = ''GTE''
       then compare_matched P r metric_value
     else if r_operator r = ''RANGE'' \<or> r_operator r = ''BETWEEN''
       then range_matched r metric_value
     else Inr False)"

text \<open>
  The loop of \<^verbatim>\<open>evaluate_rules\<close> over the rules, on the state \<open>(score, lg)\<close> of the
  score and the log. A metric that raises appends the error entry and goes on with the
  next rule (\<^verbatim>\<open>continue\<close>), without touching the score. Every other rule adds its
  applied weight to the score, in the order of the rules, by the addition of doubles.
\<close>

fun run_rules :: "builtins \<Rightarrow> provider \<Rightarrow> rule list \<Rightarrow> pyfloat \<times> log_entry list
    \<Rightarrow> exn + (pyfloat \<times> log_entry list)" where
  "run_rules P provider [] (score, lg) = Inr (score, lg)"
| "run_rules P provider (r # rules) (score, lg) =
    (case provider (r_metric r) (r_window_value r) (r_window_unit r) of
       Inl e \<Rightarrow> run_rules P provider rules (score, lg @ [error_entry r e])
     | Inr metric_value \<Rightarrow>
        (case operator_matched P r metric_value of
           Inl e \<Rightarrow> Inl e
         | Inr matched \<Rightarrow>
            (let applied = (if matched then r_weight r else 0)
             in run_rules P provider rules
                  (float_add P score applied,
                   lg @ [rule_entry r metric_value matched applied]))))"

definition evaluate_rules :: "builtins \<Rightarrow> provider \<Rightarrow> rule list
    \<Rightarrow> exn + (pyfloat \<times> log_entry list)" where
  "evaluate_rules P provider rules = run_rules P provider rules (Finite 0, [])"

section \<open>Business rules\<close>

text \<open>The dataclass \<^verbatim>\<open>BusinessRuleOption\<close>, one Likert option of a group; the fields keep
  their names behind the prefix \<open>o_\<close>.\<close>

record business_rule_option =
  o_source :: string
  o_group_id :: string
  o_parent_id :: "string option"
  o_priority :: "int option"
  o_match_type :: "string option"
  o_category :: string
  o_business_rule_label :: string
  o_likert_value :: int
  o_likert_label :: string
  o_all_of :: "string list"
  o_any_of :: "string list"
  o_none_of :: "string list"
  o_threshold_attr :: "string option"
  o_weight :: rat

text \<open>The dictionary logged under \<^verbatim>\<open>"chosen"\<close>, the dictionaries logged under
  \<^verbatim>\<open>"satisfied_options"\<close>, and the entry of the business log.\<close>

record chosen_option =
  ch_likert_value :: int
  ch_likert_label :: string
  ch_weight :: rat
  ch_all_of :: "string list"
  ch_any_of :: "string list"
  ch_none_of :: "string list"

record satisfied_option =
  so_likert_value :: int
  so_likert_label :: string
  so_weight :: rat

record business_entry =
  be_group_id :: string
  be_label :: string
  be_category :: string
  be_chosen :: "chosen_option option"
  be_satisfied_options :: "satisfied_option list"

definition chosen_dict :: "business_rule_option \<Rightarrow> chosen_option" where
  "chosen_dict chosen = \<lparr>
     ch_likert_value = o_likert_value chosen, ch_likert_label = o_likert_label chosen,
     ch_weight = o_weight chosen, ch_all_of = o_all_of chosen, ch_any_of = o_any_of chosen,
     ch_none_of = o_none_of chosen \<rparr>"

definition satisfied_dict :: "business_rule_option \<Rightarrow> satisfied_option" where
  "satisfied_dict opt = \<lparr>
     so_likert_value = o_likert_value opt, so_likert_label = o_likert_label opt,
     so_weight = o_weight opt \<rparr>"

text \<open>The ids of the atomic log entries whose \<^verbatim>\<open>matched\<close> is true.\<close>

definition matched_atomic_ids :: "log_entry list \<Rightarrow> string set" where
  "matched_atomic_ids atomic_log = set (map le_id (filter le_matched atomic_log))"

text \<open>\<^verbatim>\<open>groups.setdefault(opt.group_id, []).append(opt)\<close> on a dictionary that keeps the
  order in which its keys were inserted, here an association list.\<close>

definition setdefault_append ::
  "(string \<times> business_rule_option list) list \<Rightarrow> business_rule_option
    \<Rightarrow> (string \<times> business_rule_option list) list" where
  "setdefault_append groups opt =
    (if o_group_id opt \<in> set (map fst groups)
     then map (\<lambda>(g, options). if g = o_group_id opt then (g, options @ [opt]) else (g, options))
            groups
     else groups @ [(o_group_id opt, [opt])])"

definition group_options ::
  "business_rule_option list \<Rightarrow> (string \<times> business_rule_option list) list" where
  "group_options br_options = foldl setdefault_append [] br_options"

definition option_satisfied :: "string set \<Rightarrow> business_rule_option \<Rightarrow> bool" where
  "option_satisfied matched_ids opt =
    (if o_all_of opt \<noteq> [] \<and> \<not> list_all (\<lambda>rule_id. rule_id \<in> matched_ids) (o_all_of opt)
       then False
     else if o_any_of opt \<noteq> [] \<and> \<not> list_ex (\<lambda>rule_id. rule_id \<in> matched_ids) (o_any_of opt)
       then False
     else if o_none_of opt \<noteq> [] \<and> list_ex (\<lambda>rule_id. rule_id \<in> matched_ids) (o_none_of opt)
       then False
     else True)"

text \<open>
  The sort key \<^verbatim>\<open>(o.likert_value, o.weight, -(o.priority or 0))\<close>; Python compares tuples
  lexicographically, as the order on products does here. \<^verbatim>\<open>sort(key=..., reverse=True)\<close>
  reverses the list, sorts it stably in ascending order of the key, and reverses the
  result.
\<close>

definition priority_or_0 :: "business_rule_option \<Rightarrow> int" where
  "priority_or_0 opt = (case o_priority opt of None \<Rightarrow> 0 | Some p \<Rightarrow> p)"

definition sort_key_of :: "business_rule_option \<Rightarrow> int \<times> rat \<times> int" where
  "sort_key_of opt = (o_likert_value opt, o_weight opt, - priority_or_0 opt)"

definition sort_reverse :: "business_rule_option list \<Rightarrow> business_rule_option list" where
  "sort_reverse satisfied = rev (sort_key sort_key_of (rev satisfied))"

text \<open>The satisfied options of a group after the sort, and the chosen one.\<close>

definition satisfied_sorted ::
  "string set \<Rightarrow> business_rule_option list \<Rightarrow> business_rule_option list" where
  "satisfied_sorted matched_ids options =
    (let satisfied = filter (option_satisfied matched_ids) options
     in if satisfied \<noteq> [] then sort_reverse satisfied else satisfied)"

definition chosen_of ::
  "string set \<Rightarrow> business_rule_option list \<Rightarrow> business_rule_option option" where
  "chosen_of matched_ids options =
    (case satisfied_sorted matched_ids options of [] \<Rightarrow> None | opt # _ \<Rightarrow> Some opt)"

text \<open>\<^verbatim>\<open>next((f(opt) for opt in options if f(opt)), "")\<close>: the first non-empty value.\<close>

definition first_nonempty :: "string list \<Rightarrow> string" where
  "first_nonempty values = (case filter (\<lambda>v. v \<noteq> []) values of [] \<Rightarrow> [] | v # _ \<Rightarrow> v)"

fun group_entry ::
  "string set \<Rightarrow> string \<times> business_rule_option list \<Rightarrow> business_entry" where
  "group_entry matched_ids (group_id, options) =
    \<lparr> be_group_id = group_id,
      be_label = first_nonempty (map o_business_rule_label options),
      be_category = first_nonempty (map o_category options),
      be_chosen = map_option chosen_dict (chosen_of matched_ids options),
      be_satisfied_options = map satisfied_dict (satisfied_sorted matched_ids options) \<rparr>"

text \<open>The loop over the groups, on the state of the business score and the business log;
  the weight of a chosen option is added to the score by the addition of doubles.\<close>

fun run_groups :: "builtins \<Rightarrow> string set \<Rightarrow> (string \<times> business_rule_option list) list
    \<Rightarrow> pyfloat \<times> business_entry list \<Rightarrow> pyfloat \<times> business_entry list" where
  "run_groups P matched_ids [] (business_score, business_log) = (business_score, business_log)"
| "run_groups P matched_ids ((group_id, options) # groups) (business_score, business_log) =
    run_groups P matched_ids groups
      (case chosen_of matched_ids options of
         None \<Rightarrow> business_score
       | Some chosen \<Rightarrow> float_add P business_score (o_weight chosen),
       business_log @ [group_entry matched_ids (group_id, options)])"

definition evaluate_business_rules ::
  "builtins \<Rightarrow> log_entry list \<Rightarrow> business_rule_option list
    \<Rightarrow> pyfloat \<times> business_entry list" where
  "evaluate_business_rules P atomic_log br_options =
    (if br_options = [] then (Finite 0, [])
     else run_groups P (matched_atomic_ids atomic_log) (group_options br_options)
            (Finite 0, []))"

section \<open>Loading rules\<close>

text \<open>Sequencing of computations that may raise.\<close>

definition and_then :: "exn + 'a \<Rightarrow> ('a \<Rightarrow> exn + 'b) \<Rightarrow> exn + 'b" where
  "and_then m f = (case m of Inl e \<Rightarrow> Inl e | Inr x \<Rightarrow> f x)"

text \<open>\<^verbatim>\<open>row.get(k)\<close>, \<^verbatim>\<open>x or ""\<close>, \<^verbatim>\<open>s or None\<close>, and \<^verbatim>\<open>row[k].strip()\<close>, which raises
  when the column is missing or the cell is \<^verbatim>\<open>None\<close>.\<close>

definition row_get :: "row \<Rightarrow> string \<Rightarrow> string option" where
  "row_get row k = (case row k of None \<Rightarrow> None | Some cell \<Rightarrow> cell)"

definition or_empty :: "string option \<Rightarrow> string" where
  "or_empty x = (case x of None \<Rightarrow> [] | Some s \<Rightarrow> s)"

definition or_none :: "string \<Rightarrow> string option" where
  "or_none s = (if s = [] then None else Some s)"

definition item_strip :: "row \<Rightarrow> string \<Rightarrow> exn + string" where
  "item_strip row k = (case row k of
      None \<Rightarrow> Inl (Exn ''KeyError'' k)
    | Some None \<Rightarrow> Inl (Exn ''AttributeError'' ''NoneType object has no attribute strip'')
    | Some (Some cell) \<Rightarrow> Inr (strip cell))"

text \<open>\<^verbatim>\<open>row.get(k) and row[k].strip()\<close>: the cell is there and not blank.\<close>

definition has_text :: "row \<Rightarrow> string \<Rightarrow> bool" where
  "has_text row k = (case row_get row k of None \<Rightarrow> False | Some cell \<Rightarrow> strip cell \<noteq> [])"

text \<open>\<^verbatim>\<open>float(row[k]) if row.get(k) and row[k].strip() else None\<close>, and the same with
  \<^verbatim>\<open>int\<close>.\<close>

definition float_cell :: "builtins \<Rightarrow> row \<Rightarrow> string \<Rightarrow> exn + rat option" where
  "float_cell P row k =
    (if has_text row k
     then (case float_of_str P (or_empty (row_get row k)) of
         None \<Rightarrow> Inl (Exn ''ValueError'' ''could not convert string to float'')
       | Some x \<Rightarrow> Inr (Some x))
     else Inr None)"

definition int_cell :: "builtins \<Rightarrow> row \<Rightarrow> string \<Rightarrow> exn + int option" where
  "int_cell P row k =
    (if has_text row k
     then (case int_of_str P (or_empty (row_get row k)) of
         None \<Rightarrow> Inl (Exn ''ValueError'' ''invalid literal for int() with base 10'')
       | Some i \<Rightarrow> Inr (Some i))
     else Inr None)"

text \<open>
  The parsing of the \<^verbatim>\<open>value_exact\<close> cell, the same statements in
  \<^verbatim>\<open>load_rules_from_csv\<close> and in \<^verbatim>\<open>load_rules\<close>: the cell is stripped first, and
  every test is made on the stripped text.
\<close>

definition parse_value_exact :: "builtins \<Rightarrow> row \<Rightarrow> pyval" where
  "parse_value_exact P row =
    (let raw_exact = strip (or_empty (row_get row ''value_exact'')) in
     if raw_exact = [] then PNone
     else (let upper_exact = upper raw_exact in
       if upper_exact = ''TRUE'' \<or> upper_exact = ''FALSE'' then PBool (upper_exact = ''TRUE'')
       else (case float_of_str P raw_exact of
           Some x \<Rightarrow> PFloat x
         | None \<Rightarrow> PStr raw_exact)))"

text \<open>The \<^verbatim>\<open>Rule(...)\<close> of \<^verbatim>\<open>load_rules_from_csv\<close>: the arguments are evaluated in the
  order of the call, so the first that raises decides the exception.\<close>

definition rule_of_csv_row :: "builtins \<Rightarrow> row \<Rightarrow> exn + rule" where
  "rule_of_csv_row P row =
    (let parsed_exact = parse_value_exact P row in
     and_then (item_strip row ''id'') (\<lambda>ident.
     and_then (item_strip row ''category'') (\<lambda>category.
     and_then (item_strip row ''label'') (\<lambda>label.
     and_then (item_strip row ''metric'') (\<lambda>metric.
     and_then (item_strip row ''operator'') (\<lambda>operator.
     and_then (float_cell P row ''value_low'') (\<lambda>value_low.
     and_then (float_cell P row ''value_high'') (\<lambda>value_high.
     and_then (int_cell P row ''window_value'') (\<lambda>window_value.
     and_then (float_cell P row ''weight'') (\<lambda>weight.
     and_then (case row ''is_gate'' of
                 None \<Rightarrow> Inr (upper (strip ''FALSE'') = ''TRUE'')
               | Some None \<Rightarrow>
                   Inl (Exn ''AttributeError'' ''NoneType object has no attribute strip'')
               | Some (Some cell) \<Rightarrow> Inr (upper (strip cell) = ''TRUE'')) (\<lambda>is_gate.
     Inr \<lparr> r_id = ident, r_category = category, r_label = label, r_metric = metric,
           r_operator = upper operator, r_value_low = value_low, r_value_high = value_high,
           r_value_exact = parsed_exact,
           r_unit = or_none (strip (or_empty (row_get row ''unit''))),
           r_window_value = window_value,
           r_window_unit = or_none (strip (or_empty (row_get row ''window_unit''))),
           r_weight = (case weight of None \<Rightarrow> 0 | Some w \<Rightarrow> w),
           r_is_gate = is_gate \<rparr>)))))))))))"

text \<open>The \<^verbatim>\<open>Rule(...)\<close> of \<^verbatim>\<open>load_rules\<close>, which reads the text columns with
  \<^verbatim>\<open>(row.get(k) or "").strip()\<close> and \<^verbatim>\<open>is_gate\<close> through \<^verbatim>\<open>str\<close>
  (\<^verbatim>\<open>str(None)\<close> is not TRUE).\<close>

definition rule_of_row :: "builtins \<Rightarrow> row \<Rightarrow> exn + rule" where
  "rule_of_row P row =
    (let parsed_exact = parse_value_exact P row in
     and_then (float_cell P row ''value_low'') (\<lambda>value_low.
     and_then (float_cell P row ''value_high'') (\<lambda>value_high.
     and_then (int_cell P row ''window_value'') (\<lambda>window_value.
     and_then (float_cell P row ''weight'') (\<lambda>weight.
     Inr \<lparr> r_id = strip (or_empty (row_get row ''id'')),
           r_category = strip (or_empty (row_get row ''category'')),
           r_label = strip (or_empty (row_get row ''label'')),
           r_metric = strip (or_empty (row_get row ''metric'')),
           r_operator = upper (strip (or_empty (row_get row ''operator''))),
           r_value_low = value_low, r_value_high = value_high,
           r_value_exact = parsed_exact,
           r_unit = or_none (strip (or_empty (row_get row ''unit''))),
           r_window_value = window_value,
           r_window_unit = or_none (strip (or_empty (row_get row ''window_unit''))),
           r_weight = (case weight of None \<Rightarrow> 0 | Some w \<Rightarrow> w),
           r_is_gate = (case row ''is_gate'' of
               None \<Rightarrow> upper (strip ''FALSE'') = ''TRUE''
             | Some None \<Rightarrow> upper (strip ''None'') = ''TRUE''
             | Some (Some cell) \<Rightarrow> upper (strip cell) = ''TRUE'') \<rparr>)))))"

text \<open>A loop that builds a list from the rows and stops at the first exception.\<close>

fun map_rows :: "(row \<Rightarrow> exn + 'a) \<Rightarrow> row list \<Rightarrow> exn + 'a list" where
  "map_rows f [] = Inr []"
| "map_rows f (row # rows) =
     and_then (f row) (\<lambda>x. and_then (map_rows f rows) (\<lambda>xs. Inr (x # xs)))"

text \<open>\<^verbatim>\<open>_parse_id_list\<close>: the cell split at the commas, each piece stripped, the empty
  pieces dropped.\<close>

fun split_commas :: "string \<Rightarrow> string list" where
  "split_commas [] = [[]]"
| "split_commas (c # cs) =
    (if c = CHR '','' then [] # split_commas cs
     else (case split_commas cs of [] \<Rightarrow> [[c]] | v # vs \<Rightarrow> (c # v) # vs))"

definition parse_id_list :: "string option \<Rightarrow> string list" where
  "parse_id_list cell = (case cell of
      None \<Rightarrow> []
    | Some text \<Rightarrow> if text = [] then []
        else filter (\<lambda>v. v \<noteq> []) (map strip (split_commas text)))"

text \<open>The \<^verbatim>\<open>BusinessRuleOption(...)\<close> of \<^verbatim>\<open>load_business_rules_from_csv\<close> and of
  \<^verbatim>\<open>load_business_rules\<close>, which read a row in the same way.\<close>

definition option_of_row :: "builtins \<Rightarrow> row \<Rightarrow> exn + business_rule_option" where
  "option_of_row P row =
    and_then (int_cell P row ''priority'') (\<lambda>priority.
    and_then (if or_empty (row_get row ''likert_value'') \<noteq> []
              then (case int_of_str P (or_empty (row_get row ''likert_value'')) of
                  None \<Rightarrow> Inl (Exn ''ValueError'' ''invalid literal for int() with base 10'')
                | Some i \<Rightarrow> Inr i)
              else Inr 0) (\<lambda>likert_value.
    and_then (float_cell P row ''weight'') (\<lambda>weight.
    Inr \<lparr> o_source = strip (or_empty (row_get row ''source'')),
          o_group_id = strip (or_empty (row_get row ''id'')),
          o_parent_id = or_none (strip (or_empty (row_get row ''parentId''))),
          o_priority = priority,
          o_match_type = or_none (strip (or_empty (row_get row ''match_type''))),
          o_category = strip (or_empty (row_get row ''category'')),
          o_business_rule_label = strip (or_empty (row_get row ''businessRuleLabel'')),
          o_likert_value = likert_value,
          o_likert_label = strip (or_empty (row_get row ''likert_label'')),
          o_all_of = parse_id_list (row_get row ''ALL_OF''),
          o_any_of = parse_id_list (row_get row ''ANY_OF''),
          o_none_of = parse_id_list (row_get row ''NONE_OF''),
          o_threshold_attr = or_none (strip (or_empty (row_get row ''threshold_attr''))),
          o_weight = (case weight of None \<Rightarrow> 0 | Some w \<Rightarrow> w) \<rparr>)))"

text \<open>
  The file system is a map from the paths that exist to their contents.
  \<^verbatim>\<open>os.path.join(rules_dir, rel)\<close> for a relative \<open>rel\<close> that is not empty.
\<close>

type_synonym files = "string \<rightharpoonup> string"

definition path_join :: "string \<Rightarrow> string \<Rightarrow> string" where
  "path_join dir rel =
    (if dir = [] then rel
     else if last dir = CHR ''/'' then dir @ rel
     else dir @ ''/'' @ rel)"

definition rules_path :: "string \<Rightarrow> string \<Rightarrow> string" where
  "rules_path provider_name rules_dir =
    path_join rules_dir (''providers/'' @ provider_name @ ''/rules_'' @ provider_name @ ''.csv'')"

definition br_path :: "string \<Rightarrow> string \<Rightarrow> string" where
  "br_path provider_name rules_dir =
    path_join rules_dir (''providers/'' @ provider_name @ ''/br_'' @ provider_name @ ''.csv'')"

definition load_business_rules_from_csv ::
  "builtins \<Rightarrow> files \<Rightarrow> string \<Rightarrow> string \<Rightarrow> exn + business_rule_option list" where
  "load_business_rules_from_csv P fs provider_name rules_dir =
    (case fs (br_path provider_name rules_dir) of
       None \<Rightarrow> Inr []
     | Some text \<Rightarrow> map_rows (option_of_row P) (dict_reader P text))"

definition load_rules_from_csv ::
  "builtins \<Rightarrow> files \<Rightarrow> string \<Rightarrow> string \<Rightarrow> exn + rule list" where
  "load_rules_from_csv P fs provider_name rules_dir =
    (case fs (rules_path provider_name rules_dir) of
       None \<Rightarrow> Inl (Exn ''FileNotFoundError''
         (''Rules file not found for provider '' @ [CHR 0x27] @ provider_name @ [CHR 0x27]
            @ '' at '' @ rules_path provider_name rules_dir))
     | Some text \<Rightarrow> map_rows (rule_of_csv_row P) (dict_reader P text))"

text \<open>
  The configuration read from the environment by \<^verbatim>\<open>_load_csv_rows_dynamic\<close>. Its tiers
  2 to 4 (the fresh cache, the sheet and the stale cache) are network and object storage
  calls that yield rows or nothing; their outcome for a provider and a kind is the
  parameter \<open>remote_rows\<close>.
\<close>

record rule_source =
  spreadsheet_id :: "string option"
  api_key :: "string option"
  remote_rows :: "string \<Rightarrow> string \<Rightarrow> row list option"

definition load_csv_rows_dynamic ::
  "builtins \<Rightarrow> rule_source \<Rightarrow> files \<Rightarrow> string \<Rightarrow> string \<Rightarrow> string \<Rightarrow> row list option" where
  "load_csv_rows_dynamic P src fs provider_name kind fallback_path =
    (if or_empty (spreadsheet_id src) = [] \<or> or_empty (api_key src) = []
     then (case fs fallback_path of
         Some text \<Rightarrow> Some (dict_reader_lines P text)
       | None \<Rightarrow> None)
     else (case remote_rows src provider_name kind of
         Some rows \<Rightarrow> Some rows
       | None \<Rightarrow> (case fs fallback_path of
             Some text \<Rightarrow> Some (dict_reader_lines P text)
           | None \<Rightarrow> None)))"

definition load_rules ::
  "builtins \<Rightarrow> rule_source \<Rightarrow> files \<Rightarrow> string \<Rightarrow> string \<Rightarrow> exn + rule list" where
  "load_rules P src fs provider_name rules_dir =
    (case load_csv_rows_dynamic P src fs provider_name ''rules''
            (rules_path provider_name rules_dir) of
       None \<Rightarrow> load_rules_from_csv P fs provider_name rules_dir
     | Some rows \<Rightarrow> map_rows (rule_of_row P) rows)"

definition load_business_rules ::
  "builtins \<Rightarrow> rule_source \<Rightarrow> files \<Rightarrow> string \<Rightarrow> string
    \<Rightarrow> exn + business_rule_option list" where
  "load_business_rules P src fs provider_name rules_dir =
    (case load_csv_rows_dynamic P src fs provider_name ''br''
            (br_path provider_name rules_dir) of
       None \<Rightarrow> load_business_rules_from_csv P fs provider_name rules_dir
     | Some rows \<Rightarrow> map_rows (option_of_row P) rows)"

section \<open>Example inputs\<close>

text \<open>
  The inputs of the worked examples. \<open>example_builtins\<close> gives Python's results on
  the few strings the examples read, on the integers up to \<open>2 ^ 53\<close>, which
  \<^verbatim>\<open>float\<close> converts exactly, and on the sums the examples compute: sums of small
  integers, which are exact; \<open>2 ^ 1023 + 2 ^ 1023\<close>, which overflows to infinity; and
  \<open>10 ^ 16 + 1\<close>, which lies halfway between the doubles \<open>10 ^ 16\<close> and
  \<open>10 ^ 16 + 2\<close> and is rounded to the first, the even one. \<open>example_provider\<close> answers three metrics and raises the
  \<^verbatim>\<open>ValueError\<close> of the providers' \<^verbatim>\<open>get_metric\<close> for any other.
\<close>

definition example_builtins :: builtins where
  "example_builtins = \<lparr>
     float_of_str = [''10'' \<mapsto> 10, ''3.5'' \<mapsto> 7 / 2],
     float_of_int = (\<lambda>i. if \<bar>i\<bar> \<le> 2 ^ 53 then Some (of_int i) else None),
     int_of_str = [''90'' \<mapsto> 90],
     float_add = (\<lambda>score weight. case score of
         Finite x \<Rightarrow>
           if x = 2 ^ 1023 \<and> weight = 2 ^ 1023 then PosInf
           else if x = 10 ^ 16 \<and> weight = 1 then Finite (10 ^ 16)
           else Finite (x + weight)
       | PosInf \<Rightarrow> PosInf
       | NegInf \<Rightarrow> NegInf
       | NaN \<Rightarrow> NaN),
     dict_reader = (\<lambda>text. []),
     dict_reader_lines = (\<lambda>text. []) \<rparr>"

definition example_provider :: provider where
  "example_provider metric window_value window_unit =
    (if metric = ''stars'' then Inr (PInt 15)
     else if metric = ''verified'' then Inr (PBool True)
     else if metric = ''company'' then Inr PNone
     else Inl (Exn ''ValueError'' (''Unsupported metric: '' @ metric)))"

definition example_rule :: "string \<Rightarrow> string \<Rightarrow> string \<Rightarrow> pyval \<Rightarrow> rat \<Rightarrow> rule" where
  "example_rule ident metric operator value_exact weight = \<lparr>
     r_id = ident, r_category = ''profile'', r_label = ident, r_metric = metric,
     r_operator = operator, r_value_low = None, r_value_high = None,
     r_value_exact = value_exact, r_unit = None, r_window_value = None, r_window_unit = None,
     r_weight = weight, r_is_gate = False \<rparr>"

definition example_rules :: "rule list" where
  "example_rules =
    [example_rule ''r1'' ''stars'' ''GTE'' (PFloat 10) 2,
     example_rule ''r2'' ''verified'' ''EXISTS'' PNone 1,
     example_rule ''r3'' ''followers'' ''GT'' (PFloat 5) 4,
     example_rule ''r4'' ''company'' ''EQ'' PNone 3]"

definition example_range_rule :: rule where
  "example_range_rule = (example_rule ''r5'' ''stars'' ''RANGE'' PNone 5)
     \<lparr> r_value_low := Some 15, r_value_high := Some 20 \<rparr>"

definition example_text_threshold_rule :: rule where
  "example_text_threshold_rule = example_rule ''r6'' ''stars'' ''GT'' (PStr ''abc'') 1"




definition example_option ::
  "string \<Rightarrow> int \<Rightarrow> string \<Rightarrow> rat \<Rightarrow> int option \<Rightarrow> string list \<Rightarrow> business_rule_option" where
  "example_option group_id likert_value likert_label weight priority any_of = \<lparr>
     o_source = ''github'', o_group_id = group_id, o_parent_id = None, o_priority = priority,
     o_match_type = None, o_category = ''activity'', o_business_rule_label = ''Activity'',
     o_likert_value = likert_value, o_likert_label = likert_label, o_all_of = [],
     o_any_of = any_of, o_none_of = [], o_threshold_attr = None, o_weight = weight \<rparr>"

text \<open>An atomic log in which rule \<open>r1\<close> matched, and three groups of options: two
  options tied on the likert value that differ in weight, two that differ in priority
  only (the higher priority first), and a group of three whose first option has a lower
  likert value and whose other two are tied on everything, the priority of the one
  missing and that of the other 0.\<close>

definition example_atomic_log :: "log_entry list" where
  "example_atomic_log = [rule_entry (example_rules ! 0) (PInt 15) True 2]"

definition example_weight_options :: "business_rule_option list" where
  "example_weight_options =
    [example_option ''g1'' 3 ''A'' 5 None [],
     example_option ''g1'' 3 ''B'' 8 None [''r1'']]"

definition example_priority_options :: "business_rule_option list" where
  "example_priority_options =
    [example_option ''g2'' 3 ''priority 2'' 5 (Some 2) [],
     example_option ''g2'' 3 ''priority 1'' 5 (Some 1) []]"

definition example_tied_options :: "business_rule_option list" where
  "example_tied_options =
    [example_option ''g3'' 1 ''low'' 5 None [],
     example_option ''g3'' 3 ''first'' 5 None [],
     example_option ''g3'' 3 ''second'' 5 (Some 0) []]"

text \<open>A rule source with no remote configuration.\<close>

definition example_source :: rule_source where
  "example_source = \<lparr> spreadsheet_id = None, api_key = None, remote_rows = (\<lambda>provider kind. None) \<rparr>"

section \<open>Properties of the atomic evaluation\<close>

text \<open>The loop over a concatenation runs the first part, then the second from the state
  the first part left.\<close>

lemma run_rules_append:
  "run_rules P p (xs @ ys) st =
     (case run_rules P p xs st of Inl e \<Rightarrow> Inl e | Inr st' \<Rightarrow> run_rules P p ys st')"
proof (induction xs arbitrary: st)
  case Nil
  show ?case by (cases st) simp
next
  case (Cons r xs)
  obtain score lg where st: "st = (score, lg)" by (cases st)
  show ?case unfolding st
    by (simp add: Cons.IH Let_def split: sum.splits)
qed

text \<open>When the loop returns, it has appended one entry per rule, in the order of the
  rules: the error entry of a rule whose metric raised, the entry of the evaluation
  otherwise.\<close>

lemma run_rules_entries:
  "run_rules P p rules (score, lg) = Inr (score', lg') \<Longrightarrow>
     \<exists>new. lg' = lg @ new \<and>
       list_all2 (\<lambda>r e. case p (r_metric r) (r_window_value r) (r_window_unit r) of
            Inl x \<Rightarrow> e = error_entry r x
          | Inr v \<Rightarrow> (\<exists>m. operator_matched P r v = Inr m \<and>
               e = rule_entry r v m (if m then r_weight r else 0))) rules new"
proof (induction rules arbitrary: score lg)
  case Nil
  then show ?case by simp
next
  case (Cons r rules)
  let ?ok = "\<lambda>r e. case p (r_metric r) (r_window_value r) (r_window_unit r) of
            Inl x \<Rightarrow> e = error_entry r x
          | Inr v \<Rightarrow> (\<exists>m. operator_matched P r v = Inr m \<and>
               e = rule_entry r v m (if m then r_weight r else 0))"
  show ?case
  proof (cases "p (r_metric r) (r_window_value r) (r_window_unit r)")
    case (Inl x)
    with Cons.prems have "run_rules P p rules (score, lg @ [error_entry r x]) = Inr (score', lg')"
      by simp
    from Cons.IH [OF this] obtain new where
      "lg' = (lg @ [error_entry r x]) @ new" "list_all2 ?ok rules new" by blast
    moreover have "?ok r (error_entry r x)" by (simp add: Inl)
    ultimately have "lg' = lg @ (error_entry r x # new)
        \<and> list_all2 ?ok (r # rules) (error_entry r x # new)" by simp
    then show ?thesis by blast
  next
    case (Inr v)
    with Cons.prems obtain m where m: "operator_matched P r v = Inr m"
      by (cases "operator_matched P r v") simp_all
    define e where "e = rule_entry r v m (if m then r_weight r else 0)"
    from Cons.prems Inr m
    have "run_rules P p rules (float_add P score (if m then r_weight r else 0), lg @ [e]) = Inr (score', lg')"
      by (simp add: e_def Let_def)
    from Cons.IH [OF this] obtain new where
      "lg' = (lg @ [e]) @ new" "list_all2 ?ok rules new" by blast
    moreover have "?ok r e" using m by (simp add: Inr e_def)
    ultimately have "lg' = lg @ (e # new) \<and> list_all2 ?ok (r # rules) (e # new)"
      by simp
    then show ?thesis by blast
  qed
qed

lemma evaluate_rules_entry:
  assumes "evaluate_rules P p rules = Inr (score, lg)" and "i < length rules"
    and "p (r_metric (rules ! i)) (r_window_value (rules ! i)) (r_window_unit (rules ! i)) = Inr v"
  shows "\<exists>m. operator_matched P (rules ! i) v = Inr m \<and>
           lg ! i = rule_entry (rules ! i) v m (if m then r_weight (rules ! i) else 0)"
proof -
  from assms(1) run_rules_entries [of P p rules "Finite 0" "[]" score lg]
  have "list_all2 (\<lambda>r e. case p (r_metric r) (r_window_value r) (r_window_unit r) of
            Inl x \<Rightarrow> e = error_entry r x
          | Inr v \<Rightarrow> (\<exists>m. operator_matched P r v = Inr m \<and>
               e = rule_entry r v m (if m then r_weight r else 0))) rules lg"
    by (simp add: evaluate_rules_def)
  from list_all2_nthD [OF this assms(2)] assms(3) show ?thesis by simp
qed

lemma evaluate_rules_matched:
  assumes "evaluate_rules P p rules = Inr (score, lg)" and "i < length rules"
    and "p (r_metric (rules ! i)) (r_window_value (rules ! i)) (r_window_unit (rules ! i)) = Inr v"
    and "operator_matched P (rules ! i) v = Inr m"
  shows "le_matched (lg ! i) = m"
    and "le_weight_applied (lg ! i) = (if m then r_weight (rules ! i) else 0)"
    and "le_metric_value (lg ! i) = v"
  using evaluate_rules_entry [OF assms(1-3)] assms(4) by (auto simp: rule_entry_def)

text \<open>The truth value of a Python object, spelled out.\<close>

lemma py_bool_iff:
  "py_bool v \<longleftrightarrow> v \<noteq> PNone \<and> v \<noteq> PBool False \<and> v \<noteq> PInt 0 \<and> v \<noteq> PFloat 0
     \<and> v \<noteq> PStr [] \<and> v \<noteq> PList []"
  by (cases v) auto

text \<open>
  Claim C4. In \<^verbatim>\<open>evaluate_rules\<close>, a rule with operator \<^verbatim>\<open>EXISTS\<close> matches iff the value
  the provider returned is truthy: not \<^verbatim>\<open>None\<close>, not \<^verbatim>\<open>False\<close>, not zero (integer or
  float), not the empty string and not an empty collection. A rule with operator
  \<^verbatim>\<open>MISSING\<close> matches iff the value is not truthy in that sense. Neither operator raises,
  and the \<^verbatim>\<open>matched\<close> of the rule's log entry is that truth value.
\<close>

theorem exists_missing_truthy:
  assumes "i < length rules" and "r = rules ! i"
    and "provider (r_metric r) (r_window_value r) (r_window_unit r) = Inr v"
    and "truthy \<longleftrightarrow> v \<noteq> PNone \<and> v \<noteq> PBool False \<and> v \<noteq> PInt 0 \<and> v \<noteq> PFloat 0
           \<and> v \<noteq> PStr [] \<and> v \<noteq> PList []"
  shows "(r_operator r = ''EXISTS'' \<longrightarrow>
            operator_matched P r v = Inr truthy \<and>
            (\<forall>score lg. evaluate_rules P provider rules = Inr (score, lg)
               \<longrightarrow> le_matched (lg ! i) = truthy))
       \<and> (r_operator r = ''MISSING'' \<longrightarrow>
            operator_matched P r v = Inr (\<not> truthy) \<and>
            (\<forall>score lg. evaluate_rules P provider rules = Inr (score, lg)
               \<longrightarrow> le_matched (lg ! i) = (\<not> truthy)))"
proof -
  have t: "truthy = py_bool v" using assms(4) py_bool_iff by simp
  have e: "r_operator r = ''EXISTS'' \<Longrightarrow> operator_matched P r v = Inr truthy"
    by (simp add: operator_matched_def t)
  have m: "r_operator r = ''MISSING'' \<Longrightarrow> operator_matched P r v = Inr (\<not> truthy)"
    by (simp add: operator_matched_def t)
  show ?thesis
    using e m evaluate_rules_matched(1) [of P provider rules _ _ i v] assms(1-3)
    by blast
qed


text \<open>The definitions that evaluate the worked examples.\<close>

lemmas ex_defs = example_builtins_def example_provider_def example_rule_def example_rules_def
  evaluate_rules_def operator_matched_def compare_matched_def range_matched_def py_float_def
  rule_entry_def error_entry_def bool_target_def py_ge_def py_le_def



theorem exists_missing_truthy_witness:
  "(1::nat) < length example_rules
   \<and> example_provider (r_metric (example_rules ! 1)) (r_window_value (example_rules ! 1))
        (r_window_unit (example_rules ! 1)) = Inr (PBool True)
   \<and> r_operator (example_rules ! 1) = ''EXISTS''
   \<and> operator_matched example_builtins (example_rules ! 1) (PBool True) = Inr True
   \<and> (\<exists>score lg. evaluate_rules example_builtins example_provider example_rules = Inr (score, lg)
        \<and> le_matched (lg ! 1))"
  using exists_missing_truthy [of 1 example_rules "example_rules ! 1" example_provider
      "PBool True" True example_builtins]
  by (simp add: ex_defs)

text \<open>
  Claim C9. In \<^verbatim>\<open>evaluate_rules\<close>, a rule with operator \<^verbatim>\<open>EQ\<close> whose \<^verbatim>\<open>value_exact\<close> is
  \<^verbatim>\<open>None\<close> matches when the provider returns \<^verbatim>\<open>None\<close> for its metric (\<^verbatim>\<open>None == None\<close>),
  and the whole weight of the rule is applied: it is added to the score and logged as
  \<^verbatim>\<open>weight_applied\<close>.
\<close>

theorem eq_null_target_matches_null:
  assumes "i < length rules" and "r = rules ! i"
    and "r_operator r = ''EQ''" and "r_value_exact r = PNone"
    and "provider (r_metric r) (r_window_value r) (r_window_unit r) = Inr PNone"
  shows "operator_matched P r PNone = Inr True
       \<and> run_rules P provider (r # rest) (score, lg)
           = run_rules P provider rest
               (float_add P score (r_weight r), lg @ [rule_entry r PNone True (r_weight r)])
       \<and> (\<forall>total entries. evaluate_rules P provider rules = Inr (total, entries)
            \<longrightarrow> le_matched (entries ! i) \<and> le_weight_applied (entries ! i) = r_weight r)"
proof -
  have m: "operator_matched P r PNone = Inr True"
    using assms(3,4) by (simp add: operator_matched_def bool_target_def)
  have step: "run_rules P provider (r # rest) (score, lg)
           = run_rules P provider rest
               (float_add P score (r_weight r), lg @ [rule_entry r PNone True (r_weight r)])"
    using assms(5) m by (simp add: Let_def)
  have "le_matched (entries ! i) \<and> le_weight_applied (entries ! i) = r_weight r"
    if "evaluate_rules P provider rules = Inr (total, entries)" for total entries
    using evaluate_rules_matched(1,2) [OF that assms(1), of PNone True] assms(2,5) m
    by simp
  with m step show ?thesis by blast
qed

theorem eq_null_target_matches_null_witness:
  "(3::nat) < length example_rules
   \<and> r_operator (example_rules ! 3) = ''EQ'' \<and> r_value_exact (example_rules ! 3) = PNone
   \<and> example_provider (r_metric (example_rules ! 3)) (r_window_value (example_rules ! 3))
        (r_window_unit (example_rules ! 3)) = Inr PNone
   \<and> operator_matched example_builtins (example_rules ! 3) PNone = Inr True
   \<and> (\<exists>total entries.
         evaluate_rules example_builtins example_provider example_rules = Inr (total, entries)
         \<and> le_matched (entries ! 3) \<and> le_weight_applied (entries ! 3) = 3)"
  using eq_null_target_matches_null [of 3 example_rules "example_rules ! 3" example_provider
      example_builtins "[]" "Finite 0" "[]"]
  by (simp add: ex_defs)

text \<open>The loop only appends to the log it is given, and its score does not depend on
  that log.\<close>

lemma run_rules_shift:
  "run_rules P p rules (score, lg) =
     (case run_rules P p rules (score, []) of
        Inl x \<Rightarrow> Inl x
      | Inr (score', new) \<Rightarrow> Inr (score', lg @ new))"
proof (induction rules arbitrary: score lg)
  case Nil
  show ?case by simp
next
  case (Cons r rules)
  have shift: "run_rules P p rules (s, lg @ [e]) =
     (case run_rules P p rules (s, [e]) of
        Inl x \<Rightarrow> Inl x
      | Inr (score', new) \<Rightarrow> Inr (score', lg @ new))" for s e
    using Cons.IH [of s "lg @ [e]"] Cons.IH [of s "[e]"]
    by (auto split: sum.splits)
  show ?case
  proof (cases "p (r_metric r) (r_window_value r) (r_window_unit r)")
    case (Inl x)
    then show ?thesis using shift [of score "error_entry r x"] by simp
  next
    case (Inr v)
    show ?thesis
    proof (cases "operator_matched P r v")
      case (Inl x)
      with Inr show ?thesis by simp
    next
      case m: (Inr m)
      with Inr show ?thesis
        using shift [of "float_add P score (if m then r_weight r else 0)"
            "rule_entry r v m (if m then r_weight r else 0)"]
        by (simp add: Let_def)
    qed
  qed
qed

text \<open>
  Claim C5. When \<^verbatim>\<open>get_metric\<close> raises for a rule, \<^verbatim>\<open>evaluate_rules\<close> returns what it
  returns on the rules without that one (the same exception, or the same score and the
  same entries of the other rules), with one more log entry at the position of the rule:
  \<^verbatim>\<open>matched\<close> false, \<^verbatim>\<open>weight_applied\<close> 0, \<^verbatim>\<open>metric_value\<close> \<^verbatim>\<open>None\<close>, and the message
  and the class name of the exception. The rules after it are evaluated as before.
\<close>

theorem metric_failure_logged_and_skipped:
  assumes "provider (r_metric r) (r_window_value r) (r_window_unit r) = Inl e"
  shows "evaluate_rules P provider (before @ r # after) =
           (case evaluate_rules P provider (before @ after) of
              Inl x \<Rightarrow> Inl x
            | Inr (score, lg) \<Rightarrow>
                Inr (score, take (length before) lg @ error_entry r e # drop (length before) lg))
       \<and> le_id (error_entry r e) = r_id r
       \<and> le_matched (error_entry r e) = False
       \<and> le_weight_applied (error_entry r e) = 0
       \<and> le_metric_value (error_entry r e) = PNone
       \<and> le_error (error_entry r e) = Some (message e)
       \<and> le_exception_type (error_entry r e) = Some (exception_type e)"
proof -
  have "evaluate_rules P provider (before @ r # after) =
           (case evaluate_rules P provider (before @ after) of
              Inl x \<Rightarrow> Inl x
            | Inr (score, lg) \<Rightarrow>
                Inr (score, take (length before) lg @ error_entry r e # drop (length before) lg))"
  proof (cases "run_rules P provider before (Finite 0, [])")
    case (Inl x)
    then show ?thesis by (simp add: evaluate_rules_def run_rules_append)
  next
    case (Inr st)
    obtain s l where st: "st = (s, l)" by (cases st)
    from Inr st run_rules_entries [of P provider before "Finite 0" "[]" s l]
    have len: "length l = length before" by (auto dest: list_all2_lengthD)
    have with_r: "run_rules P provider (before @ r # after) (Finite 0, [])
        = run_rules P provider after (s, l @ [error_entry r e])"
      using Inr st assms by (simp add: run_rules_append)
    have without: "run_rules P provider (before @ after) (Finite 0, [])
        = run_rules P provider after (s, l)"
      using Inr st by (simp add: run_rules_append)
    show ?thesis
      unfolding evaluate_rules_def with_r without
      using run_rules_shift [of P provider after s "l @ [error_entry r e]"]
        run_rules_shift [of P provider after s l] len
      by (auto split: sum.splits)
  qed
  then show ?thesis by (simp add: error_entry_def)
qed

theorem metric_failure_logged_and_skipped_witness:
  "example_provider (r_metric (example_rules ! 2)) (r_window_value (example_rules ! 2))
        (r_window_unit (example_rules ! 2)) = Inl (Exn ''ValueError'' ''Unsupported metric: followers'')
   \<and> evaluate_rules example_builtins example_provider (take 2 example_rules @ drop 3 example_rules)
       = Inr (Finite 6, [rule_entry (example_rules ! 0) (PInt 15) True 2,
                  rule_entry (example_rules ! 1) (PBool True) True 1,
                  rule_entry (example_rules ! 3) PNone True 3])
   \<and> evaluate_rules example_builtins example_provider
        (take 2 example_rules @ example_rules ! 2 # drop 3 example_rules)
       = Inr (Finite 6, [rule_entry (example_rules ! 0) (PInt 15) True 2,
                  rule_entry (example_rules ! 1) (PBool True) True 1,
                  error_entry (example_rules ! 2) (Exn ''ValueError'' ''Unsupported metric: followers''),
                  rule_entry (example_rules ! 3) PNone True 3])"
  using metric_failure_logged_and_skipped [of example_provider "example_rules ! 2"
      "Exn ''ValueError'' ''Unsupported metric: followers''" example_builtins
      "take 2 example_rules" "drop 3 example_rules"]
  by (simp add: ex_defs)

text \<open>The range operators on a number, on \<^verbatim>\<open>None\<close>, and whenever they return. They
  raise the \<^verbatim>\<open>TypeError\<close> of the comparison exactly when a bound is set and the metric
  value is neither \<^verbatim>\<open>None\<close> nor a number.\<close>

lemma range_matched_number:
  assumes "num_of v = Some x"
  shows "range_matched r v = Inr ((case r_value_low r of None \<Rightarrow> True | Some lo \<Rightarrow> lo \<le> x)
           \<and> (case r_value_high r of None \<Rightarrow> True | Some hi \<Rightarrow> x \<le> hi))"
proof -
  from assms have "v \<noteq> PNone" by auto
  with assms show ?thesis
    by (simp add: range_matched_def py_ge_def py_le_def split: option.splits)
qed

lemma range_matched_null:
  "range_matched r PNone = Inr (r_value_low r = None \<and> r_value_high r = None)"
  by (simp add: range_matched_def split: option.splits)

lemma range_matched_returns:
  assumes "range_matched r v = Inr m"
  shows "m \<longleftrightarrow> (r_value_low r = None \<or> (\<exists>x lo. num_of v = Some x \<and> r_value_low r = Some lo \<and> lo \<le> x))
           \<and> (r_value_high r = None \<or> (\<exists>x hi. num_of v = Some x \<and> r_value_high r = Some hi \<and> x \<le> hi))"
proof (cases "num_of v")
  case (Some x)
  with assms range_matched_number [OF Some, of r] show ?thesis
    by (auto split: option.splits)
next
  case None
  show ?thesis
  proof (cases "v = PNone")
    case True
    with assms range_matched_null [of r] show ?thesis by auto
  next
    case False
    with None assms show ?thesis
      by (auto simp: range_matched_def py_ge_def py_le_def split: option.splits)
  qed
qed

lemma range_matched_raises_iff:
  "(\<exists>e. range_matched r v = Inl e) \<longleftrightarrow>
     v \<noteq> PNone \<and> num_of v = None \<and> (r_value_low r \<noteq> None \<or> r_value_high r \<noteq> None)"
proof (cases "num_of v")
  case (Some x)
  with range_matched_number [OF Some, of r] show ?thesis by simp
next
  case None
  show ?thesis
  proof (cases "v = PNone")
    case True
    with range_matched_null [of r] show ?thesis by simp
  next
    case False
    with None show ?thesis
      by (auto simp: range_matched_def py_ge_def py_le_def split: option.splits)
  qed
qed

text \<open>
  Claim C3. In \<^verbatim>\<open>evaluate_rules\<close>, a rule with operator \<^verbatim>\<open>RANGE\<close> or \<^verbatim>\<open>BETWEEN\<close> matches
  iff (\<^verbatim>\<open>value_low\<close> is unset or the metric value is a number at least \<^verbatim>\<open>value_low\<close>) and
  (\<^verbatim>\<open>value_high\<close> is unset or the metric value is a number at most \<^verbatim>\<open>value_high\<close>). This
  is what the operator computes on \<^verbatim>\<open>None\<close> and on every number, without raising, and
  what the log entry of the rule records in every run that returns. A \<^verbatim>\<open>None\<close> metric
  value satisfies no bound that is set, and a number equal to a bound satisfies that
  bound.
\<close>

theorem range_between_inclusive:
  assumes "i < length rules" and "r = rules ! i"
    and "r_operator r = ''RANGE'' \<or> r_operator r = ''BETWEEN''"
    and "provider (r_metric r) (r_window_value r) (r_window_unit r) = Inr v"
    and "low_ok \<longleftrightarrow> r_value_low r = None
           \<or> (\<exists>x lo. num_of v = Some x \<and> r_value_low r = Some lo \<and> lo \<le> x)"
    and "high_ok \<longleftrightarrow> r_value_high r = None
           \<or> (\<exists>x hi. num_of v = Some x \<and> r_value_high r = Some hi \<and> x \<le> hi)"
  shows "(v = PNone \<or> num_of v \<noteq> None \<longrightarrow> operator_matched P r v = Inr (low_ok \<and> high_ok))
       \<and> (\<forall>score lg. evaluate_rules P provider rules = Inr (score, lg)
            \<longrightarrow> le_matched (lg ! i) = (low_ok \<and> high_ok))
       \<and> (v = PNone \<and> (r_value_low r \<noteq> None \<or> r_value_high r \<noteq> None) \<longrightarrow> \<not> (low_ok \<and> high_ok))
       \<and> (\<forall>x. num_of v = Some x \<and> r_value_low r = Some x \<longrightarrow> low_ok)
       \<and> (\<forall>x. num_of v = Some x \<and> r_value_high r = Some x \<longrightarrow> high_ok)"
proof -
  have op: "operator_matched P r v = range_matched r v"
    using assms(3) by (auto simp: operator_matched_def)
  have ret: "m = (low_ok \<and> high_ok)" if "range_matched r v = Inr m" for m
    using range_matched_returns [OF that] assms(5,6) by blast
  have total: "operator_matched P r v = Inr (low_ok \<and> high_ok)" if "v = PNone \<or> num_of v \<noteq> None"
  proof -
    from that obtain m where "range_matched r v = Inr m"
      using range_matched_null [of r] range_matched_number [of v _ r] by auto
    with ret [OF this] op show ?thesis by simp
  qed
  have logged: "le_matched (lg ! i) = (low_ok \<and> high_ok)"
    if run: "evaluate_rules P provider rules = Inr (score, lg)" for score lg
  proof -
    from evaluate_rules_entry [OF run assms(1)] assms(2,4)
    obtain m where m: "operator_matched P r v = Inr m"
      and e: "lg ! i = rule_entry r v m (if m then r_weight r else 0)" by auto
    from m op ret have "m = (low_ok \<and> high_ok)" by simp
    with e show ?thesis by (simp add: rule_entry_def)
  qed
  have null: "\<not> (low_ok \<and> high_ok)" if "v = PNone \<and> (r_value_low r \<noteq> None \<or> r_value_high r \<noteq> None)"
    using that assms(5,6) by auto
  have lo: "low_ok" if "num_of v = Some x \<and> r_value_low r = Some x" for x
    using that assms(5) by auto
  have hi: "high_ok" if "num_of v = Some x \<and> r_value_high r = Some x" for x
    using that assms(6) by auto
  from total logged null lo hi show ?thesis by blast
qed

theorem range_between_inclusive_witness:
  "(0::nat) < length [example_range_rule]
   \<and> r_operator example_range_rule = ''RANGE''
   \<and> example_provider (r_metric example_range_rule) (r_window_value example_range_rule)
        (r_window_unit example_range_rule) = Inr (PInt 15)
   \<and> num_of (PInt 15) = Some 15 \<and> r_value_low example_range_rule = Some 15
   \<and> r_value_high example_range_rule = Some 20
   \<and> operator_matched example_builtins example_range_rule (PInt 15) = Inr True
   \<and> (\<exists>score lg. evaluate_rules example_builtins example_provider [example_range_rule]
          = Inr (score, lg) \<and> le_matched (lg ! 0))"
  using range_between_inclusive [of 0 "[example_range_rule]" example_range_rule example_provider
      "PInt 15" True True example_builtins]
  by (simp add: ex_defs example_range_rule_def)

text \<open>
  The comparison operators \<^verbatim>\<open>LT\<close>, \<^verbatim>\<open>LTE\<close>, \<^verbatim>\<open>GT\<close> and \<^verbatim>\<open>GTE\<close>: a metric value that
  \<^verbatim>\<open>float\<close> rejects, or a \<^verbatim>\<open>value_exact\<close> of \<^verbatim>\<open>None\<close>, gives no match. The comparison
  raises exactly when the metric value converts, \<^verbatim>\<open>value_exact\<close> is not \<^verbatim>\<open>None\<close>, and
  \<^verbatim>\<open>float(rule.value_exact)\<close> raises.
\<close>

lemma compare_matched_no_match:
  "py_float P v = Inl e \<or> r_value_exact r = PNone \<Longrightarrow> compare_matched P r v = Inr False"
  by (auto simp: compare_matched_def split: sum.splits)

lemma compare_matched_raises_iff:
  "compare_matched P r v = Inl e \<longleftrightarrow>
     (\<exists>m. py_float P v = Inr m) \<and> r_value_exact r \<noteq> PNone \<and> py_float P (r_value_exact r) = Inl e"
  by (auto simp: compare_matched_def split: sum.splits)

text \<open>
  Claim C2 says that the comparison operators never raise. The loader keeps a
  \<^verbatim>\<open>value_exact\<close> cell that is not a number as a string; for a rule with operator
  \<^verbatim>\<open>GT\<close>, that threshold and a numeric metric value, \<^verbatim>\<open>float(rule.value_exact)\<close> raises
  \<^verbatim>\<open>ValueError\<close> outside the \<^verbatim>\<open>try\<close>, and \<^verbatim>\<open>evaluate_rules\<close> raises it: no log is
  returned, also when the rules before it were evaluated.
\<close>

theorem compare_text_threshold_raises:
  "parse_value_exact example_builtins [''value_exact'' \<mapsto> Some ''abc''] = PStr ''abc''
   \<and> r_operator example_text_threshold_rule = ''GT''
   \<and> r_value_exact example_text_threshold_rule = PStr ''abc''
   \<and> example_provider (r_metric example_text_threshold_rule)
        (r_window_value example_text_threshold_rule)
        (r_window_unit example_text_threshold_rule) = Inr (PInt 15)
   \<and> evaluate_rules example_builtins example_provider [example_text_threshold_rule]
        = Inl (Exn ''ValueError'' ''could not convert string to float'')
   \<and> evaluate_rules example_builtins example_provider (example_rules @ [example_text_threshold_rule])
        = Inl (Exn ''ValueError'' ''could not convert string to float'')"
proof -
  have "strip ''abc'' = ''abc''" "upper ''abc'' = ''ABC''" by code_simp+
  then have "parse_value_exact example_builtins [''value_exact'' \<mapsto> Some ''abc''] = PStr ''abc''"
    by (simp add: parse_value_exact_def row_get_def or_empty_def example_builtins_def)
  then show ?thesis
    by (simp add: ex_defs example_text_threshold_rule_def)
qed

section \<open>Properties of the business evaluation\<close>

text \<open>
  The first element after \<^verbatim>\<open>sort(key=..., reverse=True)\<close>: the sort is stable, so it is the
  earliest element of the input whose key is greatest.
\<close>

lemma sorted_key_le_last:
  assumes "sorted (map k ys)" and "y \<in> set ys"
  shows "k y \<le> k (last ys)"
proof -
  from assms(2) obtain i where i: "i < length ys" "ys ! i = y"
    by (auto simp: in_set_conv_nth)
  then have ne: "ys \<noteq> []" by auto
  from i have "i \<le> length ys - 1" by simp
  with assms(1) i ne have "map k ys ! i \<le> map k ys ! (length ys - 1)"
    by (simp add: sorted_iff_nth_mono del: nth_map)
  with i ne show ?thesis by (simp add: last_conv_nth)
qed

lemma last_of_filter:
  "ys \<noteq> [] \<Longrightarrow> Q (last ys) \<Longrightarrow> last (filter Q ys) = last ys"
  by (induction ys rule: rev_induct) auto

lemma sort_reverse_first:
  assumes "satisfied \<noteq> []"
  shows "\<exists>before c after. satisfied = before @ c # after
           \<and> sort_reverse satisfied \<noteq> [] \<and> hd (sort_reverse satisfied) = c
           \<and> (\<forall>opt \<in> set before. sort_key_of opt < sort_key_of c)
           \<and> (\<forall>opt \<in> set after. sort_key_of opt \<le> sort_key_of c)"
proof -
  define ys where "ys = sort_key sort_key_of (rev satisfied)"
  define c where "c = last ys"
  have set_ys: "set ys = set satisfied" by (simp add: ys_def)
  with assms have ne: "ys \<noteq> []" by auto
  have hd_c: "hd (sort_reverse satisfied) = c"
    by (simp add: sort_reverse_def ys_def [symmetric] hd_rev c_def)
  have srt: "sorted (map sort_key_of ys)" by (simp add: ys_def)
  have max: "sort_key_of opt \<le> sort_key_of c" if "opt \<in> set satisfied" for opt
    using sorted_key_le_last [OF srt, of opt] that set_ys by (simp add: c_def)
  have "filter (\<lambda>y. sort_key_of y = sort_key_of c) ys
      = rev (filter (\<lambda>y. sort_key_of y = sort_key_of c) satisfied)"
    by (simp add: ys_def sort_key_stable rev_filter)
  then have "last (filter (\<lambda>y. sort_key_of y = sort_key_of c) ys)
      = hd (filter (\<lambda>y. sort_key_of y = sort_key_of c) satisfied)"
    by (simp add: last_rev)
  moreover have "last (filter (\<lambda>y. sort_key_of y = sort_key_of c) ys) = c"
    using last_of_filter [OF ne, of "\<lambda>y. sort_key_of y = sort_key_of c"] by (simp add: c_def)
  ultimately have hd_f: "hd (filter (\<lambda>y. sort_key_of y = sort_key_of c) satisfied) = c" by simp
  have "c \<in> set ys" unfolding c_def using ne by (rule last_in_set)
  with set_ys have cin: "c \<in> set satisfied" by blast
  have "filter (\<lambda>y. sort_key_of y = sort_key_of c) satisfied \<noteq> []"
  proof
    assume "filter (\<lambda>y. sort_key_of y = sort_key_of c) satisfied = []"
    then have "\<forall>x \<in> set satisfied. sort_key_of x \<noteq> sort_key_of c"
      by (simp only: filter_empty_conv)
    with cin show False by blast
  qed
  with hd_f obtain fs where "filter (\<lambda>y. sort_key_of y = sort_key_of c) satisfied = c # fs"
    by (cases "filter (\<lambda>y. sort_key_of y = sort_key_of c) satisfied") auto
  from filter_eq_ConsD [OF this]
  obtain before after where split: "satisfied = before @ c # after"
    and before: "\<forall>u \<in> set before. sort_key_of u \<noteq> sort_key_of c"
    by blast
  have lt: "\<forall>opt \<in> set before. sort_key_of opt < sort_key_of c"
  proof
    fix opt assume opt: "opt \<in> set before"
    with split have "opt \<in> set satisfied" by simp
    from max [OF this] before opt show "sort_key_of opt < sort_key_of c"
      by (simp only: less_le) blast
  qed
  have le: "\<forall>opt \<in> set after. sort_key_of opt \<le> sort_key_of c"
  proof
    fix opt assume "opt \<in> set after"
    with split have "opt \<in> set satisfied" by simp
    from max [OF this] show "sort_key_of opt \<le> sort_key_of c" .
  qed
  have nonempty: "sort_reverse satisfied \<noteq> []"
    using ne by (simp add: sort_reverse_def ys_def)
  show ?thesis
    apply (rule exI [of _ before])
    apply (rule exI [of _ c])
    apply (rule exI [of _ after])
    using split nonempty hd_c lt le apply (intro conjI)
        apply assumption+
    done
qed

lemma chosen_of_first:
  assumes "satisfied = filter (option_satisfied matched_ids) options" and "satisfied \<noteq> []"
  shows "\<exists>before c after. satisfied = before @ c # after
           \<and> chosen_of matched_ids options = Some c
           \<and> (\<forall>opt \<in> set before. sort_key_of opt < sort_key_of c)
           \<and> (\<forall>opt \<in> set after. sort_key_of opt \<le> sort_key_of c)"
proof -
  from sort_reverse_first [OF assms(2)] obtain before c after where
    *: "satisfied = before @ c # after" "sort_reverse satisfied \<noteq> []"
       "hd (sort_reverse satisfied) = c"
       "\<forall>opt \<in> set before. sort_key_of opt < sort_key_of c"
       "\<forall>opt \<in> set after. sort_key_of opt \<le> sort_key_of c" by blast
  from *(2,3) assms have "chosen_of matched_ids options = Some c"
    by (cases "sort_reverse satisfied")
       (auto simp: chosen_of_def satisfied_sorted_def Let_def)
  with * show ?thesis by blast
qed

lemma chosen_of_none:
  "filter (option_satisfied matched_ids) options = [] \<Longrightarrow> chosen_of matched_ids options = None"
  by (simp add: chosen_of_def satisfied_sorted_def)


text \<open>The groups built by \<^verbatim>\<open>setdefault\<close>: one per group id, holding the options of that
  id in their input order.\<close>

lemma setdefault_append_keys:
  "distinct (map fst groups) \<Longrightarrow> distinct (map fst (setdefault_append groups opt))"
proof -
  have "map fst (map (\<lambda>(g, options). if g = k then (g, options @ [opt]) else (g, options)) groups)
      = map fst groups" for k
    by (induction groups) auto
  then show "distinct (map fst groups) \<Longrightarrow> distinct (map fst (setdefault_append groups opt))"
    by (simp add: setdefault_append_def del: map_map)
qed

lemma map_of_append_options:
  "map_of (map (\<lambda>(g, options). if g = k then (g, options @ [opt]) else (g, options)) groups) g
     = (if g = k then map_option (\<lambda>options. options @ [opt]) (map_of groups g)
        else map_of groups g)"
  by (induction groups) auto

lemma map_of_setdefault_append:
  "map_of (setdefault_append groups opt) g =
     (if g = o_group_id opt
      then Some ((case map_of groups g of None \<Rightarrow> [] | Some options \<Rightarrow> options) @ [opt])
      else map_of groups g)"
proof (cases "o_group_id opt \<in> set (map fst groups)")
  case True
  then obtain options where "map_of groups (o_group_id opt) = Some options"
    by (metis list.set_map map_of_eq_None_iff not_None_eq)
  with True show ?thesis
    by (simp add: setdefault_append_def map_of_append_options del: set_map)
next
  case False
  then have "map_of groups (o_group_id opt) = None"
    by (simp add: map_of_eq_None_iff)
  with False show ?thesis
    by (auto simp: setdefault_append_def map_add_def split: option.splits)
qed

lemma foldl_setdefault_append:
  "distinct (map fst groups) \<Longrightarrow>
     distinct (map fst (foldl setdefault_append groups br_options))
     \<and> map_of (foldl setdefault_append groups br_options) g =
        (if map_of groups g = None \<and> filter (\<lambda>opt. o_group_id opt = g) br_options = [] then None
         else Some ((case map_of groups g of None \<Rightarrow> [] | Some options \<Rightarrow> options)
                @ filter (\<lambda>opt. o_group_id opt = g) br_options))"
proof (induction br_options arbitrary: groups)
  case Nil
  then show ?case by (auto split: option.splits)
next
  case (Cons opt br_options)
  from Cons.IH [OF setdefault_append_keys [OF Cons.prems], of opt]
  show ?case
    by (simp add: map_of_setdefault_append)
qed

lemma group_options_groups:
  "distinct (map fst (group_options br_options))"
  "(g, options) \<in> set (group_options br_options) \<longleftrightarrow>
     options = filter (\<lambda>opt. o_group_id opt = g) br_options \<and> options \<noteq> []"
proof -
  from foldl_setdefault_append [of "[]" br_options g]
  have d: "distinct (map fst (group_options br_options))"
    and m: "map_of (group_options br_options) g =
        (if filter (\<lambda>opt. o_group_id opt = g) br_options = [] then None
         else Some (filter (\<lambda>opt. o_group_id opt = g) br_options))"
    by (simp_all add: group_options_def)
  show "distinct (map fst (group_options br_options))" by (rule d)
  have "(g, options) \<in> set (group_options br_options)
      \<longleftrightarrow> map_of (group_options br_options) g = Some options"
    using d by simp
  with m show "(g, options) \<in> set (group_options br_options) \<longleftrightarrow>
     options = filter (\<lambda>opt. o_group_id opt = g) br_options \<and> options \<noteq> []"
    by auto
qed

text \<open>The business log has one entry per group, found by the group id.\<close>

lemma run_groups_log:
  "snd (run_groups P matched_ids groups (business_score, business_log))
     = business_log @ map (group_entry matched_ids) groups"
  by (induction groups arbitrary: business_score business_log) auto

lemma filter_distinct_key:
  "distinct (map fst groups) \<Longrightarrow> (g, options) \<in> set groups \<Longrightarrow>
     filter (\<lambda>p. fst p = g) groups = [(g, options)]"
proof (induction groups)
  case Nil
  then show ?case by simp
next
  case (Cons p groups)
  show ?case
  proof (cases "fst p = g")
    case True
    with Cons.prems have "p = (g, options)"
      by (cases p) (auto simp: image_iff)
    moreover from True Cons.prems have "filter (\<lambda>p. fst p = g) groups = []"
      by (auto simp: filter_empty_conv image_iff)
    ultimately show ?thesis by simp
  next
    case False
    with Cons show ?thesis by auto
  qed
qed

lemma business_log_of_group:
  assumes "options = filter (\<lambda>opt. o_group_id opt = g) br_options" and "options \<noteq> []"
  shows "filter (\<lambda>entry. be_group_id entry = g) (snd (evaluate_business_rules P atomic_log br_options))
       = [group_entry (matched_atomic_ids atomic_log) (g, options)]"
proof -
  from assms have ne: "br_options \<noteq> []" by auto
  from assms have mem: "(g, options) \<in> set (group_options br_options)"
    by (simp add: group_options_groups(2))
  have key: "be_group_id (group_entry m p) = fst p" for m p by (cases p) simp
  have "filter (\<lambda>entry. be_group_id entry = g)
          (map (group_entry (matched_atomic_ids atomic_log)) (group_options br_options))
      = map (group_entry (matched_atomic_ids atomic_log))
          (filter (\<lambda>p. fst p = g) (group_options br_options))"
    by (simp add: filter_map o_def key)
  also have "\<dots> = [group_entry (matched_atomic_ids atomic_log) (g, options)]"
    by (simp only: filter_distinct_key [OF group_options_groups(1) mem] list.map)
  finally show ?thesis using ne
    by (simp add: evaluate_business_rules_def run_groups_log)
qed


text \<open>
  Claim C10. In \<^verbatim>\<open>evaluate_business_rules\<close>, the log has exactly one entry for a group
  with a satisfied option; the option chosen for the group, which that entry logs, is a
  satisfied option that no satisfied option beats in the order of \<^verbatim>\<open>likert_value\<close>, then
  \<^verbatim>\<open>weight\<close>, then negated \<^verbatim>\<open>priority\<close>, a missing priority counting as 0, and every
  satisfied option before it in the input sequence is strictly worse in that order. So
  no satisfied option before it is tied with it on all three: among the best options,
  which are tied on all three, the earliest of the input wins.
\<close>

theorem full_tie_earliest_wins:
  assumes "options = filter (\<lambda>opt. o_group_id opt = g) br_options"
    and "satisfied = filter (option_satisfied (matched_atomic_ids atomic_log)) options"
    and "satisfied \<noteq> []"
  shows "\<exists>entry before chosen after.
           filter (\<lambda>entry. be_group_id entry = g)
             (snd (evaluate_business_rules P atomic_log br_options)) = [entry]
         \<and> chosen_of (matched_atomic_ids atomic_log) options = Some chosen
         \<and> be_chosen entry = Some (chosen_dict chosen)
         \<and> satisfied = before @ chosen # after
         \<and> (\<forall>opt \<in> set satisfied.
               o_likert_value opt < o_likert_value chosen
             \<or> (o_likert_value opt = o_likert_value chosen
                \<and> (o_weight opt < o_weight chosen
                   \<or> (o_weight opt = o_weight chosen
                      \<and> (case o_priority chosen of None \<Rightarrow> 0 | Some p \<Rightarrow> p)
                          \<le> (case o_priority opt of None \<Rightarrow> 0 | Some p \<Rightarrow> p)))))
         \<and> (\<forall>opt \<in> set before.
               o_likert_value opt < o_likert_value chosen
             \<or> (o_likert_value opt = o_likert_value chosen
                \<and> (o_weight opt < o_weight chosen
                   \<or> (o_weight opt = o_weight chosen
                      \<and> (case o_priority chosen of None \<Rightarrow> 0 | Some p \<Rightarrow> p)
                          < (case o_priority opt of None \<Rightarrow> 0 | Some p \<Rightarrow> p)))))
         \<and> (\<forall>opt \<in> set before.
               \<not> (o_likert_value opt = o_likert_value chosen \<and> o_weight opt = o_weight chosen
                  \<and> (case o_priority opt of None \<Rightarrow> 0 | Some p \<Rightarrow> p)
                      = (case o_priority chosen of None \<Rightarrow> 0 | Some p \<Rightarrow> p)))"
proof -
  from assms(2,3) have ne: "options \<noteq> []" by auto
  from chosen_of_first [OF assms(2,3)] obtain before chosen after where
    split: "satisfied = before @ chosen # after"
    and ch: "chosen_of (matched_atomic_ids atomic_log) options = Some chosen"
    and lt: "\<forall>opt \<in> set before. sort_key_of opt < sort_key_of chosen"
    and le: "\<forall>opt \<in> set after. sort_key_of opt \<le> sort_key_of chosen" by blast
  define entry where "entry = group_entry (matched_atomic_ids atomic_log) (g, options)"
  have one: "filter (\<lambda>entry. be_group_id entry = g)
      (snd (evaluate_business_rules P atomic_log br_options)) = [entry]"
    unfolding entry_def by (rule business_log_of_group [OF assms(1) ne])
  have chosen: "be_chosen entry = Some (chosen_dict chosen)"
    by (simp add: entry_def ch)
  have key: "sort_key_of opt \<le> sort_key_of chosen" if "opt \<in> set satisfied" for opt
    using that split lt le by (auto simp: less_imp_le)
  have best: "\<forall>opt \<in> set satisfied.
               o_likert_value opt < o_likert_value chosen
             \<or> (o_likert_value opt = o_likert_value chosen
                \<and> (o_weight opt < o_weight chosen
                   \<or> (o_weight opt = o_weight chosen
                      \<and> (case o_priority chosen of None \<Rightarrow> 0 | Some p \<Rightarrow> p)
                          \<le> (case o_priority opt of None \<Rightarrow> 0 | Some p \<Rightarrow> p))))"
  proof
    fix opt assume "opt \<in> set satisfied"
    from key [OF this]
    show "o_likert_value opt < o_likert_value chosen
             \<or> (o_likert_value opt = o_likert_value chosen
                \<and> (o_weight opt < o_weight chosen
                   \<or> (o_weight opt = o_weight chosen
                      \<and> (case o_priority chosen of None \<Rightarrow> 0 | Some p \<Rightarrow> p)
                          \<le> (case o_priority opt of None \<Rightarrow> 0 | Some p \<Rightarrow> p))))"
      by (auto simp: sort_key_of_def priority_or_0_def less_eq_prod_def)
  qed
  have strict: "\<forall>opt \<in> set before.
               o_likert_value opt < o_likert_value chosen
             \<or> (o_likert_value opt = o_likert_value chosen
                \<and> (o_weight opt < o_weight chosen
                   \<or> (o_weight opt = o_weight chosen
                      \<and> (case o_priority chosen of None \<Rightarrow> 0 | Some p \<Rightarrow> p)
                          < (case o_priority opt of None \<Rightarrow> 0 | Some p \<Rightarrow> p))))"
  proof
    fix opt assume "opt \<in> set before"
    with lt have "sort_key_of opt < sort_key_of chosen" by blast
    then show "o_likert_value opt < o_likert_value chosen
             \<or> (o_likert_value opt = o_likert_value chosen
                \<and> (o_weight opt < o_weight chosen
                   \<or> (o_weight opt = o_weight chosen
                      \<and> (case o_priority chosen of None \<Rightarrow> 0 | Some p \<Rightarrow> p)
                          < (case o_priority opt of None \<Rightarrow> 0 | Some p \<Rightarrow> p))))"
      by (auto simp: sort_key_of_def priority_or_0_def less_prod_def)
  qed
  have untied: "\<forall>opt \<in> set before.
               \<not> (o_likert_value opt = o_likert_value chosen \<and> o_weight opt = o_weight chosen
                  \<and> (case o_priority opt of None \<Rightarrow> 0 | Some p \<Rightarrow> p)
                      = (case o_priority chosen of None \<Rightarrow> 0 | Some p \<Rightarrow> p))"
  proof
    fix opt assume opt: "opt \<in> set before"
    show "\<not> (o_likert_value opt = o_likert_value chosen \<and> o_weight opt = o_weight chosen
                  \<and> (case o_priority opt of None \<Rightarrow> 0 | Some p \<Rightarrow> p)
                      = (case o_priority chosen of None \<Rightarrow> 0 | Some p \<Rightarrow> p))"
    proof
      assume "o_likert_value opt = o_likert_value chosen \<and> o_weight opt = o_weight chosen
            \<and> (case o_priority opt of None \<Rightarrow> 0 | Some p \<Rightarrow> p)
                = (case o_priority chosen of None \<Rightarrow> 0 | Some p \<Rightarrow> p)"
      then have "sort_key_of opt = sort_key_of chosen"
        by (simp add: sort_key_of_def priority_or_0_def)
      with lt opt show False by auto
    qed
  qed
  show ?thesis
    apply (rule exI [of _ entry])
    apply (rule exI [of _ before])
    apply (rule exI [of _ chosen])
    apply (rule exI [of _ after])
    using one ch chosen split best strict untied apply (intro conjI)
          apply assumption+
    done
qed

text \<open>
  Claim C1, as amended. In \<^verbatim>\<open>evaluate_business_rules\<close>, the option chosen for a group
  with a satisfied option, which the entry of the group logs, is a satisfied option of
  the greatest \<^verbatim>\<open>likert_value\<close>; among
  those, of the greatest \<^verbatim>\<open>weight\<close>; and among those, of the lowest \<^verbatim>\<open>priority\<close>, a
  missing priority counting as 0.
\<close>

theorem best_option_wins_lower_priority:
  assumes "options = filter (\<lambda>opt. o_group_id opt = g) br_options"
    and "satisfied = filter (option_satisfied (matched_atomic_ids atomic_log)) options"
    and "satisfied \<noteq> []"
  shows "\<exists>entry chosen.
           filter (\<lambda>entry. be_group_id entry = g)
             (snd (evaluate_business_rules P atomic_log br_options)) = [entry]
         \<and> chosen_of (matched_atomic_ids atomic_log) options = Some chosen
         \<and> be_chosen entry = Some (chosen_dict chosen)
         \<and> chosen \<in> set satisfied
         \<and> (\<forall>opt \<in> set satisfied.
               o_likert_value opt < o_likert_value chosen
             \<or> (o_likert_value opt = o_likert_value chosen
                \<and> (o_weight opt < o_weight chosen
                   \<or> (o_weight opt = o_weight chosen
                      \<and> (case o_priority chosen of None \<Rightarrow> 0 | Some p \<Rightarrow> p)
                          \<le> (case o_priority opt of None \<Rightarrow> 0 | Some p \<Rightarrow> p)))))"
proof -
  from assms(2,3) have ne: "options \<noteq> []" by auto
  from chosen_of_first [OF assms(2,3)] obtain before chosen after where
    split: "satisfied = before @ chosen # after"
    and ch: "chosen_of (matched_atomic_ids atomic_log) options = Some chosen"
    and lt: "\<forall>opt \<in> set before. sort_key_of opt < sort_key_of chosen"
    and le: "\<forall>opt \<in> set after. sort_key_of opt \<le> sort_key_of chosen" by blast
  define entry where "entry = group_entry (matched_atomic_ids atomic_log) (g, options)"
  have one: "filter (\<lambda>entry. be_group_id entry = g)
      (snd (evaluate_business_rules P atomic_log br_options)) = [entry]"
    unfolding entry_def by (rule business_log_of_group [OF assms(1) ne])
  have chosen: "be_chosen entry = Some (chosen_dict chosen)"
    by (simp add: entry_def ch)
  have mem: "chosen \<in> set satisfied" using split by simp
  have key: "sort_key_of opt \<le> sort_key_of chosen" if "opt \<in> set satisfied" for opt
    using that split lt le by (auto simp: less_imp_le)
  have "o_likert_value opt < o_likert_value chosen
             \<or> (o_likert_value opt = o_likert_value chosen
                \<and> (o_weight opt < o_weight chosen
                   \<or> (o_weight opt = o_weight chosen
                      \<and> (case o_priority chosen of None \<Rightarrow> 0 | Some p \<Rightarrow> p)
                          \<le> (case o_priority opt of None \<Rightarrow> 0 | Some p \<Rightarrow> p))))"
    if "opt \<in> set satisfied" for opt
    using key [OF that]
    by (auto simp: sort_key_of_def priority_or_0_def less_eq_prod_def)
  with one ch chosen mem show ?thesis by blast
qed


text \<open>The definitions that evaluate the worked examples of the business rules.\<close>

lemmas br_defs = example_weight_options_def example_priority_options_def
  example_tied_options_def less_eq_prod_def evaluate_business_rules_def group_options_def setdefault_append_def
  matched_atomic_ids_def option_satisfied_def chosen_of_def satisfied_sorted_def
  sort_reverse_def sort_key_of_def priority_or_0_def chosen_dict_def satisfied_dict_def
  first_nonempty_def example_option_def example_atomic_log_def example_rules_def
  example_rule_def rule_entry_def

text \<open>
  Claim C1 says that ties on \<^verbatim>\<open>likert_value\<close> and \<^verbatim>\<open>weight\<close> are broken by the higher
  priority. Of two satisfied options of one group with likert value 3 and weight 5, the
  first of priority 2 and the second of priority 1, the second is chosen: the one of lower
  priority, which is not the earlier one either.
\<close>

theorem higher_priority_loses:
  "filter (option_satisfied (matched_atomic_ids example_atomic_log)) example_priority_options
      = example_priority_options
   \<and> map o_group_id example_priority_options = [''g2'', ''g2'']
   \<and> map o_likert_value example_priority_options = [3, 3]
   \<and> map o_weight example_priority_options = [5, 5]
   \<and> map o_priority example_priority_options = [Some 2, Some 1]
   \<and> chosen_of (matched_atomic_ids example_atomic_log) example_priority_options
       = Some (example_priority_options ! 1)
   \<and> map be_chosen (snd (evaluate_business_rules example_builtins example_atomic_log example_priority_options))
       = [Some (chosen_dict (example_priority_options ! 1))]
   \<and> chosen_dict (example_priority_options ! 1) \<noteq> chosen_dict (example_priority_options ! 0)"
  by (simp add: br_defs example_priority_options_def less_eq_prod_def)


theorem full_tie_earliest_wins_witness:
  "filter (option_satisfied (matched_atomic_ids example_atomic_log))
     (filter (\<lambda>opt. o_group_id opt = ''g3'')
        (example_weight_options @ example_priority_options @ example_tied_options))
     = example_tied_options
   \<and> example_tied_options \<noteq> []
   \<and> map be_chosen (filter (\<lambda>entry. be_group_id entry = ''g3'')
        (snd (evaluate_business_rules example_builtins example_atomic_log
           (example_weight_options @ example_priority_options @ example_tied_options))))
       = [Some (chosen_dict (example_tied_options ! 1))]
   \<and> chosen_of (matched_atomic_ids example_atomic_log) example_tied_options
       = Some (example_tied_options ! 1)
   \<and> map o_likert_value example_tied_options = [1, 3, 3]
   \<and> map o_weight example_tied_options = [5, 5, 5]
   \<and> map o_priority example_tied_options = [None, None, Some 0]
   \<and> chosen_dict (example_tied_options ! 1) \<noteq> chosen_dict (example_tied_options ! 0)
   \<and> chosen_dict (example_tied_options ! 1) \<noteq> chosen_dict (example_tied_options ! 2)"
  using full_tie_earliest_wins [of
      "filter (\<lambda>opt. o_group_id opt = ''g3'')
        (example_weight_options @ example_priority_options @ example_tied_options)"
      "''g3''" "example_weight_options @ example_priority_options @ example_tied_options"
      "filter (option_satisfied (matched_atomic_ids example_atomic_log))
        (filter (\<lambda>opt. o_group_id opt = ''g3'')
          (example_weight_options @ example_priority_options @ example_tied_options))"
      example_atomic_log example_builtins]
  by (simp add: br_defs)

theorem best_option_wins_lower_priority_witness:
  "filter (option_satisfied (matched_atomic_ids example_atomic_log))
     (filter (\<lambda>opt. o_group_id opt = ''g1'')
        (example_weight_options @ example_priority_options @ example_tied_options))
     = example_weight_options
   \<and> example_weight_options \<noteq> []
   \<and> map be_chosen (filter (\<lambda>entry. be_group_id entry = ''g1'')
        (snd (evaluate_business_rules example_builtins example_atomic_log
           (example_weight_options @ example_priority_options @ example_tied_options))))
       = [Some (chosen_dict (example_weight_options ! 1))]
   \<and> chosen_of (matched_atomic_ids example_atomic_log) example_weight_options
       = Some (example_weight_options ! 1)
   \<and> map o_likert_value example_weight_options = [3, 3]
   \<and> map o_weight example_weight_options = [5, 8]"
  using best_option_wins_lower_priority [of
      "filter (\<lambda>opt. o_group_id opt = ''g1'')
        (example_weight_options @ example_priority_options @ example_tied_options)"
      "''g1''" "example_weight_options @ example_priority_options @ example_tied_options"
      "filter (option_satisfied (matched_atomic_ids example_atomic_log))
        (filter (\<lambda>opt. o_group_id opt = ''g1'')
          (example_weight_options @ example_priority_options @ example_tied_options))"
      example_atomic_log]
  by (simp add: br_defs)

section \<open>Properties of the loaders\<close>

text \<open>
  Claim C7. When no remote rule table is available for a provider (no spreadsheet or key
  is configured, or the remote tiers yield nothing) and the local file of the atomic
  rules does not exist, \<^verbatim>\<open>load_rules_from_csv\<close> and \<^verbatim>\<open>load_rules\<close> raise
  \<^verbatim>\<open>FileNotFoundError\<close>; when the local file of the business rules does not exist,
  \<^verbatim>\<open>load_business_rules_from_csv\<close> and \<^verbatim>\<open>load_business_rules\<close> return the empty list.
\<close>

theorem missing_rule_table_raises_missing_business_table_empty:
  assumes "not_found = Exn ''FileNotFoundError''
      (''Rules file not found for provider '' @ [CHR 0x27] @ provider_name @ [CHR 0x27]
         @ '' at '' @ rules_path provider_name rules_dir)"
    and "or_empty (spreadsheet_id src) = [] \<or> or_empty (api_key src) = []
          \<or> (remote_rows src provider_name ''rules'' = None
              \<and> remote_rows src provider_name ''br'' = None)"
  shows "(fs (rules_path provider_name rules_dir) = None \<longrightarrow>
            load_rules_from_csv P fs provider_name rules_dir = Inl not_found
          \<and> load_rules P src fs provider_name rules_dir = Inl not_found)
       \<and> (fs (br_path provider_name rules_dir) = None \<longrightarrow>
            load_business_rules_from_csv P fs provider_name rules_dir = Inr []
          \<and> load_business_rules P src fs provider_name rules_dir = Inr [])"
  using assms
  by (auto simp: load_rules_from_csv_def load_rules_def load_business_rules_from_csv_def
      load_business_rules_def load_csv_rows_dynamic_def)

theorem missing_rule_table_raises_missing_business_table_empty_witness:
  "Map.empty (rules_path ''github'' ''/app'') = (None :: string option)
   \<and> Map.empty (br_path ''github'' ''/app'') = (None :: string option)
   \<and> or_empty (spreadsheet_id example_source) = []
   \<and> rules_path ''github'' ''/app'' = ''/app/providers/github/rules_github.csv''
   \<and> load_rules example_builtins example_source Map.empty ''github'' ''/app''
       = Inl (Exn ''FileNotFoundError''
           (''Rules file not found for provider '' @ [CHR 0x27] @ ''github'' @ [CHR 0x27]
              @ '' at /app/providers/github/rules_github.csv''))
   \<and> load_rules_from_csv example_builtins Map.empty ''github'' ''/app''
       = Inl (Exn ''FileNotFoundError''
           (''Rules file not found for provider '' @ [CHR 0x27] @ ''github'' @ [CHR 0x27]
              @ '' at /app/providers/github/rules_github.csv''))
   \<and> load_business_rules example_builtins example_source Map.empty ''github'' ''/app'' = Inr []
   \<and> load_business_rules_from_csv example_builtins Map.empty ''github'' ''/app'' = Inr []"
  using missing_rule_table_raises_missing_business_table_empty
    [of _ "''github''" "''/app''" example_source Map.empty example_builtins, OF refl]
  by (simp add: example_source_def or_empty_def rules_path_def br_path_def path_join_def)

text \<open>
  Claim C8, as amended. When atomic rules are loaded, the \<^verbatim>\<open>value_exact\<close> cell of a row is
  stripped of the whitespace around it, and the stripped text decides the value: empty
  (the cell was missing, empty or blank) gives \<^verbatim>\<open>None\<close>; TRUE or FALSE in any case gives
  the boolean; any other text that \<^verbatim>\<open>float\<close> accepts gives that number; a text that
  \<^verbatim>\<open>float\<close> rejects is kept as the stripped string, in its own case. Both loaders store
  this value in the rule.
\<close>

theorem value_exact_parsed_from_stripped_cell:
  assumes "raw_exact = strip (or_empty (row_get row ''value_exact''))"
  shows "(raw_exact = [] \<longrightarrow> parse_value_exact P row = PNone)
       \<and> (upper raw_exact = ''TRUE'' \<longrightarrow> parse_value_exact P row = PBool True)
       \<and> (upper raw_exact = ''FALSE'' \<longrightarrow> parse_value_exact P row = PBool False)
       \<and> (raw_exact \<noteq> [] \<and> upper raw_exact \<noteq> ''TRUE'' \<and> upper raw_exact \<noteq> ''FALSE'' \<longrightarrow>
            (\<forall>x. float_of_str P raw_exact = Some x \<longrightarrow> parse_value_exact P row = PFloat x)
          \<and> (float_of_str P raw_exact = None \<longrightarrow> parse_value_exact P row = PStr raw_exact))
       \<and> (\<forall>r. rule_of_csv_row P row = Inr r \<longrightarrow> r_value_exact r = parse_value_exact P row)
       \<and> (\<forall>r. rule_of_row P row = Inr r \<longrightarrow> r_value_exact r = parse_value_exact P row)"
proof -
  have u: "upper s = ''TRUE'' \<or> upper s = ''FALSE'' \<Longrightarrow> s \<noteq> []" for s
    by (auto simp: upper_def)
  have a: "raw_exact = [] \<longrightarrow> parse_value_exact P row = PNone"
    using assms by (simp add: parse_value_exact_def)
  have b: "upper raw_exact = ''TRUE'' \<longrightarrow> parse_value_exact P row = PBool True"
    using assms u [of raw_exact] by (simp add: parse_value_exact_def Let_def)
  have c: "upper raw_exact = ''FALSE'' \<longrightarrow> parse_value_exact P row = PBool False"
    using assms u [of raw_exact] by (simp add: parse_value_exact_def Let_def)
  have d: "raw_exact \<noteq> [] \<and> upper raw_exact \<noteq> ''TRUE'' \<and> upper raw_exact \<noteq> ''FALSE'' \<longrightarrow>
            (\<forall>x. float_of_str P raw_exact = Some x \<longrightarrow> parse_value_exact P row = PFloat x)
          \<and> (float_of_str P raw_exact = None \<longrightarrow> parse_value_exact P row = PStr raw_exact)"
    using assms by (simp add: parse_value_exact_def Let_def)
  have e: "\<forall>r. rule_of_csv_row P row = Inr r \<longrightarrow> r_value_exact r = parse_value_exact P row"
    by (auto simp: rule_of_csv_row_def and_then_def Let_def split: sum.splits)
  have f: "\<forall>r. rule_of_row P row = Inr r \<longrightarrow> r_value_exact r = parse_value_exact P row"
    by (auto simp: rule_of_row_def and_then_def Let_def split: sum.splits)
  from a b c d e f show ?thesis by blast
qed


theorem value_exact_parsed_from_stripped_cell_witness:
  "strip (or_empty (row_get [''value_exact'' \<mapsto> Some '' 3.5 ''] ''value_exact'')) = ''3.5''
   \<and> float_of_str example_builtins ''3.5'' = Some (7 / 2)
   \<and> parse_value_exact example_builtins [''value_exact'' \<mapsto> Some '' 3.5 ''] = PFloat (7 / 2)
   \<and> strip (or_empty (row_get [''value_exact'' \<mapsto> Some ''true''] ''value_exact'')) = ''true''
   \<and> upper ''true'' = ''TRUE''
   \<and> parse_value_exact example_builtins [''value_exact'' \<mapsto> Some ''true''] = PBool True
   \<and> strip (or_empty (row_get [''value_exact'' \<mapsto> Some ''Senior''] ''value_exact'')) = ''Senior''
   \<and> float_of_str example_builtins ''Senior'' = None
   \<and> parse_value_exact example_builtins [''value_exact'' \<mapsto> Some ''Senior''] = PStr ''Senior''
   \<and> strip (or_empty (row_get [''value_exact'' \<mapsto> Some []] ''value_exact'')) = []
   \<and> parse_value_exact example_builtins [''value_exact'' \<mapsto> Some []] = PNone"
proof -
  have s: "strip '' 3.5 '' = ''3.5''" "strip ''true'' = ''true''" "strip ''Senior'' = ''Senior''"
    "strip [] = []" by code_simp+
  have u: "upper ''3.5'' = ''3.5''" "upper ''true'' = ''TRUE''" "upper ''Senior'' = ''SENIOR''"
    by code_simp+
  show ?thesis
    using value_exact_parsed_from_stripped_cell
        [of "''3.5''" "[''value_exact'' \<mapsto> Some '' 3.5 '']" example_builtins]
      value_exact_parsed_from_stripped_cell
        [of "''true''" "[''value_exact'' \<mapsto> Some ''true'']" example_builtins]
      value_exact_parsed_from_stripped_cell
        [of "''Senior''" "[''value_exact'' \<mapsto> Some ''Senior'']" example_builtins]
      value_exact_parsed_from_stripped_cell
        [of "[]" "[''value_exact'' \<mapsto> Some []]" example_builtins]
    by (simp add: s u row_get_def or_empty_def example_builtins_def)
qed

text \<open>
  Claim C8 says that a cell that is not empty, not TRUE or FALSE and not a number is
  retained unchanged. The cell \<^verbatim>\<open>" abc "\<close> is retained as \<^verbatim>\<open>"abc"\<close>, and a cell of two
  spaces yields \<^verbatim>\<open>None\<close>, not a string.
\<close>

theorem padded_cell_not_retained_unchanged:
  "'' abc '' \<noteq> [] \<and> upper '' abc '' \<noteq> ''TRUE'' \<and> upper '' abc '' \<noteq> ''FALSE''
   \<and> float_of_str example_builtins '' abc '' = None
   \<and> parse_value_exact example_builtins [''value_exact'' \<mapsto> Some '' abc ''] = PStr ''abc''
   \<and> parse_value_exact example_builtins [''value_exact'' \<mapsto> Some '' abc '']
        \<noteq> PStr '' abc ''
   \<and> ''  '' \<noteq> [] \<and> upper ''  '' \<noteq> ''TRUE'' \<and> upper ''  '' \<noteq> ''FALSE''
   \<and> float_of_str example_builtins ''  '' = None
   \<and> parse_value_exact example_builtins [''value_exact'' \<mapsto> Some ''  ''] = PNone"
proof -
  have s: "strip '' abc '' = ''abc''" "strip ''  '' = []" by code_simp+
  have u: "upper '' abc '' = '' ABC ''" "upper ''abc'' = ''ABC''" "upper ''  '' = ''  ''"
    by code_simp+
  show ?thesis
    by (simp add: s u parse_value_exact_def row_get_def or_empty_def example_builtins_def)
qed

section \<open>The score and the order of the rules\<close>









end
